theory Spec2Isabelle
  imports Main "HOL-Library.AList" "HOL-Library.Word"
begin

section \<open>The ldoc launcher\<close>

text \<open>
  The repository holds a Windows launcher for the LDoc script in two variants and one
  build script:
  \<^item> \<^verbatim>\<open>src/ldoc.cpp\<close>: the launcher that runs the script file
    \<^verbatim>\<open><prefix>\bin\ldoc.lua\<close> with \<^verbatim>\<open>luaL_dofile\<close> (below: the on-disk variant,
    \<open>main_ondisk\<close>);
  \<^item> \<^verbatim>\<open>src/unnamed/part_001\<close>: the launcher that runs the byte array
    \<^verbatim>\<open>ldoc_source_bytes\<close> with \<^verbatim>\<open>luaL_loadbuffer\<close> and \<^verbatim>\<open>lua_pcall\<close> (below: the
    embedded variant, \<open>main_embedded\<close>);
  \<^item> \<^verbatim>\<open>src/unnamed/part_000\<close>: the CMake script that turns the script text into the
    header defining \<^verbatim>\<open>ldoc_source_bytes\<close> and \<^verbatim>\<open>ldoc_source_size\<close>.

  Both launchers inject the same Lua chunk, the function \<^verbatim>\<open>setPaths\<close>.
  Strings are byte strings (\<^typ>\<open>string\<close>); the backslash and the line feed are
  written \<open>bslash\<close> and \<open>newline\<close>.
\<close>

abbreviation bslash :: char where "bslash \<equiv> CHR 0x5C"
abbreviation newline :: char where "newline \<equiv> CHR 0x0A"

subsection \<open>The Lua string library, as far as \<^verbatim>\<open>setPaths\<close> uses it\<close>

text \<open>
  \<^verbatim>\<open>setPaths\<close> calls \<^verbatim>\<open>string.gsub\<close> with the two patterns \<^verbatim>\<open>\+$\<close> and \<^verbatim>\<open>^\+\<close> (in the
  Lua source the backslash is doubled inside the string literal; in a Lua pattern the
  backslash is an ordinary character, the escape being \<^verbatim>\<open>%\<close>). Both consist of the
  single item \<^verbatim>\<open>\+\<close>, one or more backslashes, greedy with backtracking, followed either
  by the anchor \<^verbatim>\<open>$\<close> or by the end of the pattern. The functions below follow the
  matcher of Lua's \<^verbatim>\<open>lstrlib.c\<close>: a matcher takes the subject from the current position
  on and returns what is left of it behind the match, or \<open>None\<close>.
\<close>

text \<open>The rest of the pattern is \<^verbatim>\<open>$\<close>: it matches at the end of the subject only.\<close>

definition match_end :: "string \<Rightarrow> string option" where
  "match_end s = (if s = [] then Some [] else None)"

text \<open>The rest of the pattern is empty: it matches anywhere.\<close>

definition match_done :: "string \<Rightarrow> string option" where
  "match_done s = Some s"

text \<open>The first loop of \<^verbatim>\<open>max_expand\<close>: how many characters in a row match the item.\<close>

fun run_length :: "char \<Rightarrow> string \<Rightarrow> nat" where
  "run_length c [] = 0"
| "run_length c (x # xs) = (if x = c then Suc (run_length c xs) else 0)"

text \<open>
  The second loop of \<^verbatim>\<open>max_expand\<close>: try the rest of the pattern \<open>k\<close> behind \<open>i\<close>
  repetitions, then behind \<open>i - 1\<close>, down to none.
\<close>

fun max_expand :: "(string \<Rightarrow> string option) \<Rightarrow> string \<Rightarrow> nat \<Rightarrow> string option" where
  "max_expand k s 0 = k s"
| "max_expand k s (Suc i) =
     (case k (drop (Suc i) s) of Some e \<Rightarrow> Some e | None \<Rightarrow> max_expand k s i)"

text \<open>The item \<^verbatim>\<open>c+\<close>: one \<open>c\<close>, then \<^verbatim>\<open>max_expand\<close> on what follows.\<close>

definition match_plus :: "char \<Rightarrow> (string \<Rightarrow> string option) \<Rightarrow> string \<Rightarrow> string option" where
  "match_plus c k s =
     (case s of [] \<Rightarrow> None
      | x # xs \<Rightarrow> if x = c then max_expand k xs (run_length c xs) else None)"

text \<open>
  The loop of \<^verbatim>\<open>str_gsub\<close> for a pattern without \<^verbatim>\<open>^\<close>: at every position of the
  subject try the pattern; on a match emit the replacement and go on behind the match,
  otherwise copy one character. A match that consumes nothing does not move the position
  by itself, so one character is copied behind the replacement.
\<close>

function gsub_loop :: "(string \<Rightarrow> string option) \<Rightarrow> string \<Rightarrow> string \<Rightarrow> string" where
  "gsub_loop m repl src =
     (case m src of
        Some e \<Rightarrow>
          if length e < length src then repl @ gsub_loop m repl e
          else (case src of [] \<Rightarrow> repl | c # cs \<Rightarrow> repl @ c # gsub_loop m repl cs)
      | None \<Rightarrow> (case src of [] \<Rightarrow> [] | c # cs \<Rightarrow> c # gsub_loop m repl cs))"
  by pat_completeness auto
termination
  by (relation "measure (\<lambda>(m, repl, src). length src)") auto

declare gsub_loop.simps [simp del]

text \<open>
  A pattern that starts with \<^verbatim>\<open>^\<close> is tried once, at the start of the subject; without a
  match \<^verbatim>\<open>gsub\<close> returns the subject as it is.
\<close>

definition gsub_anchored :: "(string \<Rightarrow> string option) \<Rightarrow> string \<Rightarrow> string \<Rightarrow> string" where
  "gsub_anchored m repl src = (case m src of Some e \<Rightarrow> repl @ e | None \<Rightarrow> src)"

text \<open>\<^verbatim>\<open>s:gsub("\\+$", "")\<close>, first result.\<close>

definition gsub_trailing :: "string \<Rightarrow> string" where
  "gsub_trailing s = gsub_loop (match_plus bslash match_end) [] s"

text \<open>\<^verbatim>\<open>s:gsub("^\\+", "")\<close>, first result.\<close>

definition gsub_leading :: "string \<Rightarrow> string" where
  "gsub_leading s = gsub_anchored (match_plus bslash match_done) [] s"

text \<open>\<^verbatim>\<open>table.concat(list, sep)\<close> on a sequence.\<close>

fun table_concat :: "string list \<Rightarrow> string \<Rightarrow> string" where
  "table_concat [] sep = []"
| "table_concat [x] sep = x"
| "table_concat (x # y # ys) sep = x @ sep @ table_concat (y # ys) sep"

subsection \<open>Lua tables and \<^verbatim>\<open>ipairs\<close>\<close>

text \<open>
  The tables the launcher builds hold strings under integer keys: an association list
  with one entry per key. \<^verbatim>\<open>ipairs\<close> visits the keys 1, 2, ... up to the first absent
  one.
\<close>

type_synonym ltable = "(int \<times> string) list"

function ipairs_from :: "ltable \<Rightarrow> int \<Rightarrow> string list" where
  "ipairs_from t i = (case map_of t i of None \<Rightarrow> [] | Some v \<Rightarrow> v # ipairs_from t (i + 1))"
  by pat_completeness auto
termination
proof (relation "measure (\<lambda>(t, i). card {k \<in> fst ` set t. i \<le> k})")
  show "wf (measure (\<lambda>(t, i). card {k \<in> fst ` set t. i \<le> k}))" by simp
next
  fix t :: ltable and i :: int and v :: string
  assume "map_of t i = Some v"
  then have mem: "i \<in> fst ` set t" by (metis map_of_SomeD fst_conv image_eqI)
  have "{k \<in> fst ` set t. i + 1 \<le> k} \<subseteq> {k \<in> fst ` set t. i \<le> k}"
    by auto
  moreover have "i \<in> {k \<in> fst ` set t. i \<le> k}" "i \<notin> {k \<in> fst ` set t. i + 1 \<le> k}"
    using mem by auto
  ultimately have "{k \<in> fst ` set t. i + 1 \<le> k} \<subset> {k \<in> fst ` set t. i \<le> k}"
    by blast
  then have "card {k \<in> fst ` set t. i + 1 \<le> k} < card {k \<in> fst ` set t. i \<le> k}"
    by (intro psubset_card_mono) auto
  then show "((t, i + 1), (t, i)) \<in> measure (\<lambda>(t, i). card {k \<in> fst ` set t. i \<le> k})"
    by simp
qed

declare ipairs_from.simps [simp del]

definition ipairs :: "ltable \<Rightarrow> string list" where
  "ipairs t = ipairs_from t 1"

subsection \<open>The bridge routine \<^verbatim>\<open>setPaths\<close>\<close>

text \<open>
  \<^verbatim>\<open>
  function setPaths(basePath,paths,cpaths)
     local cleanBasePath = basePath:gsub("\\+$", "")
     local fullPaths = {}
     for _,v in ipairs(paths) do
        table.insert(fullPaths,cleanBasePath.."\\"..((v:gsub("^\\+", "")):gsub("\\+$", "")))
     end
     package.path = table.concat(fullPaths,";")
     local fullCpaths = {}
     for _,v in ipairs(cpaths) do
        table.insert(fullCpaths,cleanBasePath.."\\"..((v:gsub("^\\+", "")):gsub("\\+$", "")))
     end
     package.cpath = table.concat(fullCpaths,";")
  end
  \<close>
  \<open>insert_full\<close> is either \<^verbatim>\<open>for\<close> loop, with the sequence built so far as its last
  argument. \<open>setPaths\<close> returns the values it assigns to \<^verbatim>\<open>package.path\<close> and
  \<^verbatim>\<open>package.cpath\<close>.
\<close>

fun insert_full :: "string \<Rightarrow> string list \<Rightarrow> string list \<Rightarrow> string list" where
  "insert_full cleanBasePath [] full = full"
| "insert_full cleanBasePath (v # vs) full =
     insert_full cleanBasePath vs
       (full @ [cleanBasePath @ [bslash] @ gsub_trailing (gsub_leading v)])"

definition setPaths :: "string \<Rightarrow> ltable \<Rightarrow> ltable \<Rightarrow> string \<times> string" where
  "setPaths basePath paths cpaths =
     (let cleanBasePath = gsub_trailing basePath;
          fullPaths = insert_full cleanBasePath (ipairs paths) [];
          fullCpaths = insert_full cleanBasePath (ipairs cpaths) []
      in (table_concat fullPaths '';'', table_concat fullCpaths '';''))"

subsection \<open>The Lua state and the C API calls of \<^verbatim>\<open>main\<close>\<close>

text \<open>
  A value on the Lua stack is \<^verbatim>\<open>nil\<close>, a string, a table, the closure of \<^verbatim>\<open>setPaths\<close>
  (\<open>LBridge\<close>) or a compiled payload chunk (\<open>LChunk\<close>, with the bytes it was compiled
  from). The state holds the stack (top first), the global variables, and the two fields
  \<^verbatim>\<open>package.path\<close> and \<^verbatim>\<open>package.cpath\<close>.
\<close>

datatype lvalue = LNil | LString string | LTable ltable | LBridge | LChunk string

record lua_State =
  stack :: "lvalue list"
  globals :: "string \<Rightarrow> lvalue"
  package_path :: string
  package_cpath :: string

text \<open>
  What the launcher cannot decide by itself is a parameter of the model:
  \<^item> \<open>exe_path_ok\<close>: \<^verbatim>\<open>GetModuleFileNameW\<close> returned non-zero;
  \<^item> \<open>install_prefix\<close>: the executable's path after two \<^verbatim>\<open>PathCchRemoveFileSpec\<close> and
    \<^verbatim>\<open>WideCharToUTF8\<close> (the variable \<^verbatim>\<open>utf8Prefix\<close>);
  \<^item> \<open>newstate_ok\<close>: \<^verbatim>\<open>luaL_newstate\<close> returned a state;
  \<^item> \<open>default_path\<close>, \<open>default_cpath\<close>: the search paths \<^verbatim>\<open>luaL_openlibs\<close> installs;
  \<^item> \<open>lua_version_major\<close>, \<open>lua_version_minor\<close>: the macros \<^verbatim>\<open>LUA_VERSION_MAJOR\<close> and
    \<^verbatim>\<open>LUA_VERSION_MINOR\<close> of \<^verbatim>\<open>lua.hpp\<close>;
  \<^item> \<open>bridge_def_error\<close>: the error message when compiling or running the chunk that
    defines \<^verbatim>\<open>setPaths\<close> fails (\<open>None\<close>: it is defined);
  \<^item> \<open>bridge_run_error\<close>: the message of an error the runtime raises while \<^verbatim>\<open>setPaths\<close>
    runs, such as a memory error (\<open>None\<close>: it runs to its end);
  \<^item> \<open>payload_load_error\<close>: the message when the payload does not load or compile,
    by the file name (on-disk variant) or by the bytes handed over (embedded variant);
  \<^item> \<open>payload_run_error\<close>: the message of an error raised while the payload runs, by
    the same key.

  The payload itself is opaque: a run records that it was loaded and run and whether it
  failed. The model follows the paths through \<^verbatim>\<open>main\<close>; a payload that ends the process
  by itself (\<^verbatim>\<open>os.exit\<close>) and an error outside a protected call (a panic) never return
  to \<^verbatim>\<open>main\<close> and are not part of it.
\<close>

record env =
  exe_path_ok :: bool
  install_prefix :: string
  newstate_ok :: bool
  default_path :: string
  default_cpath :: string
  lua_version_major :: string
  lua_version_minor :: string
  bridge_def_error :: "string option"
  bridge_run_error :: "string option"
  payload_load_error :: "string \<Rightarrow> string option"
  payload_run_error :: "string \<Rightarrow> string option"

text \<open>
  What a run does that can be observed from outside, in the order it happens: a line on
  standard error, the creation and the release of the Lua state, and the loading and the
  running of the payload (with the file name or the bytes).
\<close>

datatype event = Fprintf string | NewState | LoadPayload string | RunPayload string | Close

definition luaL_newstate :: lua_State where
  "luaL_newstate =
     \<lparr>stack = [], globals = (\<lambda>_. LNil), package_path = [], package_cpath = []\<rparr>"

definition luaL_openlibs :: "env \<Rightarrow> lua_State \<Rightarrow> lua_State" where
  "luaL_openlibs e L = L\<lparr>package_path := default_path e, package_cpath := default_cpath e\<rparr>"

definition lua_newtable :: "lua_State \<Rightarrow> lua_State" where
  "lua_newtable L = L\<lparr>stack := LTable [] # stack L\<rparr>"

definition lua_pushstring :: "lua_State \<Rightarrow> string \<Rightarrow> lua_State" where
  "lua_pushstring L s = L\<lparr>stack := LString s # stack L\<rparr>"

text \<open>
  \<^verbatim>\<open>lua_rawseti(L, idx, n)\<close> with a negative index: \<^verbatim>\<open>t[n] = v\<close> for the table \<open>t\<close> at
  \<open>idx\<close> and the value \<open>v\<close> on top of the stack, which is popped. The index counts
  from the top before the pop, so \<open>-2\<close> is the value right under \<open>v\<close>. The launcher
  stores strings only; with any other stack the state is left as it is.
\<close>

definition lua_rawseti :: "lua_State \<Rightarrow> int \<Rightarrow> int \<Rightarrow> lua_State" where
  "lua_rawseti L idx n =
     (case stack L of
        LString v # rest \<Rightarrow>
          (let p = nat (- idx) - 2 in
           if idx \<le> - 2 \<and> p < length rest then
             (case rest ! p of
                LTable t \<Rightarrow> L\<lparr>stack := rest[p := LTable (AList.update n v t)]\<rparr>
              | _ \<Rightarrow> L)
           else L)
      | _ \<Rightarrow> L)"

definition lua_setglobal :: "lua_State \<Rightarrow> string \<Rightarrow> lua_State" where
  "lua_setglobal L name =
     (case stack L of
        v # rest \<Rightarrow> L\<lparr>stack := rest, globals := (globals L)(name := v)\<rparr>
      | [] \<Rightarrow> L)"

definition lua_getglobal :: "lua_State \<Rightarrow> string \<Rightarrow> lua_State" where
  "lua_getglobal L name = L\<lparr>stack := globals L name # stack L\<rparr>"

text \<open>
  \<^verbatim>\<open>lua_tostring(L, idx)\<close> with a negative index. For a value that is not a string it
  returns \<^verbatim>\<open>NULL\<close>, which \<^verbatim>\<open>fprintf\<close> prints as \<^verbatim>\<open>(null)\<close> in the C runtime the launcher
  is built with.
\<close>

definition lua_tostring :: "lua_State \<Rightarrow> int \<Rightarrow> string" where
  "lua_tostring L idx =
     (let p = nat (- idx) - 1 in
      if idx \<le> - 1 \<and> p < length (stack L) then
        (case stack L ! p of LString s \<Rightarrow> s | _ \<Rightarrow> ''(null)'')
      else ''(null)'')"

text \<open>
  \<^verbatim>\<open>luaL_dostring(L, setPaths)\<close>: the chunk is the one statement that defines the global
  function \<^verbatim>\<open>setPaths\<close>. On failure the error message stays on the stack and the status
  is not zero.
\<close>

definition luaL_dostring :: "env \<Rightarrow> lua_State \<Rightarrow> int \<times> lua_State" where
  "luaL_dostring e L =
     (case bridge_def_error e of
        None \<Rightarrow> (0, L\<lparr>globals := (globals L)(''setPaths'' := LBridge)\<rparr>)
      | Some msg \<Rightarrow> (1, L\<lparr>stack := LString msg # stack L\<rparr>))"

text \<open>
  \<^verbatim>\<open>lua_pcall(L, 3, 0, 0)\<close>: the three arguments and the called value under them are
  popped. The closure of \<^verbatim>\<open>setPaths\<close> runs the routine above on a string and two tables;
  any other called value is an error, as is an argument of another type (the method
  call \<^verbatim>\<open>basePath:gsub\<close> and \<^verbatim>\<open>ipairs\<close> raise one). An error leaves its message on the
  stack and gives the status \<^verbatim>\<open>LUA_ERRRUN\<close>, 2.
\<close>

fun bridge_args :: "lvalue \<Rightarrow> lvalue \<Rightarrow> lvalue \<Rightarrow> (string \<times> ltable \<times> ltable) option" where
  "bridge_args (LString b) (LTable p) (LTable c) = Some (b, p, c)"
| "bridge_args _ _ _ = None"

definition call_value :: "env \<Rightarrow> lvalue \<Rightarrow> lvalue \<Rightarrow> lvalue \<Rightarrow> lvalue \<Rightarrow> string + string \<times> string" where
  "call_value e f a1 a2 a3 =
     (case f of
        LBridge \<Rightarrow>
          (case bridge_run_error e of
             Some msg \<Rightarrow> Inl msg
           | None \<Rightarrow>
               (case bridge_args a1 a2 a3 of
                  Some (b, p, c) \<Rightarrow> Inr (setPaths b p c)
                | None \<Rightarrow> Inl ''bad argument to setPaths''))
      | _ \<Rightarrow> Inl ''attempt to call a nil value'')"

definition lua_pcall3 :: "env \<Rightarrow> lua_State \<Rightarrow> int \<times> lua_State" where
  "lua_pcall3 e L =
     (case stack L of
        a3 # a2 # a1 # f # rest \<Rightarrow>
          (case call_value e f a1 a2 a3 of
             Inr (pp, cp) \<Rightarrow> (0, L\<lparr>stack := rest, package_path := pp, package_cpath := cp\<rparr>)
           | Inl msg \<Rightarrow> (2, L\<lparr>stack := LString msg # rest\<rparr>))
      | _ \<Rightarrow> (2, L))"

text \<open>
  \<^verbatim>\<open>luaL_dofile(L, fn)\<close> is \<^verbatim>\<open>luaL_loadfile(L, fn) || lua_pcall(L, 0, LUA_MULTRET, 0)\<close>: one
  status for a file that does not load or compile and for a chunk that raises an error.
\<close>

definition luaL_dofile :: "env \<Rightarrow> lua_State \<Rightarrow> string \<Rightarrow> int \<times> lua_State \<times> event list" where
  "luaL_dofile e L fn =
     (case payload_load_error e fn of
        Some msg \<Rightarrow> (1, L\<lparr>stack := LString msg # stack L\<rparr>, [LoadPayload fn])
      | None \<Rightarrow>
          (case payload_run_error e fn of
             Some msg \<Rightarrow> (1, L\<lparr>stack := LString msg # stack L\<rparr>, [LoadPayload fn, RunPayload fn])
           | None \<Rightarrow> (0, L, [LoadPayload fn, RunPayload fn])))"

text \<open>
  \<^verbatim>\<open>luaL_loadbuffer(L, buff, sz, name)\<close> compiles the first \<open>sz\<close> bytes of \<open>buff\<close>: status
  \<^verbatim>\<open>LUA_OK\<close>, 0, and the chunk on the stack, or \<^verbatim>\<open>LUA_ERRSYNTAX\<close>, 3, and the message.
\<close>

definition luaL_loadbuffer :: "env \<Rightarrow> lua_State \<Rightarrow> string \<Rightarrow> nat \<Rightarrow> int \<times> lua_State" where
  "luaL_loadbuffer e L buff sz =
     (case payload_load_error e (take sz buff) of
        None \<Rightarrow> (0, L\<lparr>stack := LChunk (take sz buff) # stack L\<rparr>)
      | Some msg \<Rightarrow> (3, L\<lparr>stack := LString msg # stack L\<rparr>))"

text \<open>\<^verbatim>\<open>lua_pcall(L, 0, LUA_MULTRET, 0)\<close> on the chunk that \<^verbatim>\<open>luaL_loadbuffer\<close> left.\<close>

definition lua_pcall0 :: "env \<Rightarrow> lua_State \<Rightarrow> int \<times> lua_State" where
  "lua_pcall0 e L =
     (case stack L of
        LChunk c # rest \<Rightarrow>
          (case payload_run_error e c of
             None \<Rightarrow> (0, L\<lparr>stack := rest\<rparr>)
           | Some msg \<Rightarrow> (2, L\<lparr>stack := LString msg # rest\<rparr>))
      | _ # rest \<Rightarrow> (2, L\<lparr>stack := LString ''attempt to call a nil value'' # rest\<rparr>)
      | [] \<Rightarrow> (2, L))"

subsection \<open>The launcher\<close>

definition appName :: string where
  "appName = ''ldoc.exe''"

text \<open>The arrays \<^verbatim>\<open>LUA_PATHS\<close> and \<^verbatim>\<open>LUA_CPATHS\<close>, without the closing \<^verbatim>\<open>NULL\<close>.\<close>

definition LUA_PATHS :: "env \<Rightarrow> string list" where
  "LUA_PATHS e =
     [''bin'' @ [bslash] @ ''lua'' @ [bslash] @ ''?.lua'',
      ''bin'' @ [bslash] @ ''lua'' @ [bslash] @ ''?'' @ [bslash] @ ''init.lua'',
      ''bin'' @ [bslash] @ ''?.lua'',
      ''bin'' @ [bslash] @ ''?'' @ [bslash] @ ''init.lua'',
      ''share'' @ [bslash] @ ''lua'' @ [bslash] @ lua_version_major e @ ''.''
        @ lua_version_minor e @ [bslash] @ ''?.lua'',
      ''share'' @ [bslash] @ ''lua'' @ [bslash] @ lua_version_major e @ ''.''
        @ lua_version_minor e @ [bslash] @ ''?'' @ [bslash] @ ''init.lua'',
      ''.'' @ [bslash] @ ''?.lua'',
      ''.'' @ [bslash] @ ''?'' @ [bslash] @ ''init.lua'']"

definition LUA_CPATHS :: "env \<Rightarrow> string list" where
  "LUA_CPATHS e =
     [''bin'' @ [bslash] @ ''?.dll'',
      ''lib'' @ [bslash] @ ''lua'' @ [bslash] @ lua_version_major e @ ''.''
        @ lua_version_minor e @ [bslash] @ ''?.dll'',
      ''bin'' @ [bslash] @ ''loadall.dll'',
      ''.'' @ [bslash] @ ''?.dll'']"

text \<open>
  \<^verbatim>\<open>
  for (int i = 0; i < argc; i++) {
    lua_pushstring(L, argv[i]);
    lua_rawseti(L, -2, i);
  }
  \<close>
  The list is what is left of \<^verbatim>\<open>argv\<close> from index \<open>i\<close> on.
\<close>

fun push_argv :: "lua_State \<Rightarrow> string list \<Rightarrow> int \<Rightarrow> lua_State" where
  "push_argv L [] i = L"
| "push_argv L (a # as) i =
     push_argv (lua_rawseti (lua_pushstring L a) (- 2) i) as (i + 1)"

text \<open>
  \<^verbatim>\<open>
  for (int i = 0; LUA_PATHS[i] != NULL; ++i) {
    lua_pushstring(L, LUA_PATHS[i]);
    lua_rawseti(L, -2, i + 1);
  }
  \<close>
  and the same loop over \<^verbatim>\<open>LUA_CPATHS\<close>.
\<close>

fun push_templates :: "lua_State \<Rightarrow> string list \<Rightarrow> int \<Rightarrow> lua_State" where
  "push_templates L [] i = L"
| "push_templates L (t # ts) i =
     push_templates (lua_rawseti (lua_pushstring L t) (- 2) (i + 1)) ts (i + 1)"

text \<open>
  \<^verbatim>\<open>main\<close> from \<^verbatim>\<open>luaL_openlibs\<close> to the third argument of the call of \<^verbatim>\<open>setPaths\<close>
  (\<^verbatim>\<open>src/ldoc.cpp\<close> lines 83 to 115, the same text in both variants): the state right
  before \<^verbatim>\<open>lua_pcall(L, 3, 0, 0)\<close>. The status of \<^verbatim>\<open>luaL_dostring\<close> is dropped, as in the
  source.
\<close>

definition before_call :: "env \<Rightarrow> string list \<Rightarrow> lua_State" where
  "before_call e argv =
     (let L1 = luaL_openlibs e luaL_newstate;
          L2 = lua_setglobal (push_argv (lua_newtable L1) argv 0) ''arg'';
          L3 = snd (luaL_dostring e L2);
          L4 = lua_getglobal L3 ''setPaths'';
          L5 = lua_pushstring L4 (install_prefix e);
          L6 = push_templates (lua_newtable L5) (LUA_PATHS e) 0;
          L7 = push_templates (lua_newtable L6) (LUA_CPATHS e) 0
      in L7)"

text \<open>
  \<^verbatim>\<open>
  if (lua_pcall(L, 3, 0, 0) != 0) {
    fprintf(stderr, "%s: Error setting paths: %s\n", appName, lua_tostring(L, -1));
  }
  \<close>
  The result is the state in which the payload is loaded, and what was printed.
\<close>

definition startup :: "env \<Rightarrow> string list \<Rightarrow> lua_State \<times> event list" where
  "startup e argv =
     (case lua_pcall3 e (before_call e argv) of
        (rc, L) \<Rightarrow>
          if rc \<noteq> 0 then
            (L, [Fprintf (appName @ '': Error setting paths: '' @ lua_tostring L (- 1) @ [newline])])
          else (L, []))"

text \<open>
  \<^verbatim>\<open>main\<close> of \<^verbatim>\<open>src/ldoc.cpp\<close>: the exit status and the events of the run. \<^verbatim>\<open>argc\<close> is the
  length of \<open>argv\<close>.
\<close>

definition main_ondisk :: "env \<Rightarrow> string list \<Rightarrow> int \<times> event list" where
  "main_ondisk e argv =
     (if \<not> exe_path_ok e then
        (1, [Fprintf (appName @ '': Could not find executable path.'' @ [newline])])
      else if \<not> newstate_ok e then
        (1, [Fprintf (appName @ '': Failed to create Lua state.'' @ [newline])])
      else
        (case startup e argv of
           (L, out) \<Rightarrow>
             (let scriptPath = install_prefix e @ [bslash] @ ''bin'' @ [bslash] @ ''ldoc.lua'' in
              case luaL_dofile e L scriptPath of
                (rc, L', evs) \<Rightarrow>
                  if rc \<noteq> 0 then
                    (1, [NewState] @ out @ evs
                          @ [Fprintf (appName @ '': Error: '' @ lua_tostring L' (- 1) @ [newline]),
                             Close])
                  else (0, [NewState] @ out @ evs @ [Close]))))"

text \<open>
  \<^verbatim>\<open>main\<close> of \<^verbatim>\<open>src/unnamed/part_001\<close>, with the array \<^verbatim>\<open>ldoc_source_bytes\<close> and the
  \<^verbatim>\<open>unsigned int\<close> \<^verbatim>\<open>ldoc_source_size\<close> of the generated header as the arguments
  \<open>src_bytes\<close> and \<open>src_size\<close>. Its last statements are
  \<^verbatim>\<open>lua_close(L); return 0;\<close> on every path that created the state.
\<close>

definition main_embedded :: "env \<Rightarrow> string list \<Rightarrow> string \<Rightarrow> 32 word \<Rightarrow> int \<times> event list" where
  "main_embedded e argv src_bytes src_size =
     (if \<not> exe_path_ok e then
        (1, [Fprintf (appName @ '': Could not find executable path.'' @ [newline])])
      else if \<not> newstate_ok e then
        (1, [Fprintf (appName @ '': Failed to create Lua state.'' @ [newline])])
      else
        (case startup e argv of
           (L, out) \<Rightarrow>
             (let chunk = take (unat src_size) src_bytes in
              case luaL_loadbuffer e L src_bytes (unat src_size) of
                (rc, L') \<Rightarrow>
                  if rc = 0 then
                    (case lua_pcall0 e L' of
                       (rc', L'') \<Rightarrow>
                         if rc' \<noteq> 0 then
                           (0, [NewState] @ out @ [LoadPayload chunk, RunPayload chunk]
                                 @ [Fprintf (appName @ '': Runtime error: ''
                                      @ lua_tostring L'' (- 1) @ [newline]),
                                    Close])
                         else (0, [NewState] @ out @ [LoadPayload chunk, RunPayload chunk, Close]))
                  else
                    (0, [NewState] @ out @ [LoadPayload chunk]
                          @ [Fprintf (appName @ '': Syntax error in embedded code: ''
                               @ lua_tostring L' (- 1) @ [newline]),
                             Close]))))"

text \<open>The lines a run wrote to standard error, in order.\<close>

fun stderr_of :: "event list \<Rightarrow> string list" where
  "stderr_of [] = []"
| "stderr_of (Fprintf s # evs) = s # stderr_of evs"
| "stderr_of (_ # evs) = stderr_of evs"

subsection \<open>The build step \<^verbatim>\<open>convert_lua_to_hex.cmake\<close>\<close>

text \<open>
  \<^verbatim>\<open>file(READ "${INPUT_FILE}" CONTENT)\<close> and \<^verbatim>\<open>file(WRITE "${OUTPUT_FILE}.tmp" ...)\<close>: CMake
  opens both files in text mode. The launcher is a Windows program, and on a Windows
  host reading in text mode turns every carriage return that a line feed follows into
  that line feed alone, and writing in text mode puts a carriage return in front of every
  line feed. The script is taken to hold no zero byte and no end-of-file character
  (Ctrl-Z), which would cut the content short.
\<close>

abbreviation creturn :: char where "creturn \<equiv> CHR 0x0D"

fun read_text :: "string \<Rightarrow> string" where
  "read_text (c # d # rest) =
     (if c = creturn \<and> d = newline then newline # read_text rest
      else c # read_text (d # rest))"
| "read_text [c] = [c]"
| "read_text [] = []"

fun write_text :: "string \<Rightarrow> string" where
  "write_text [] = []"
| "write_text (c # rest) =
     (if c = newline then creturn # newline # write_text rest else c # write_text rest)"

text \<open>
  \<^verbatim>\<open>string(REGEX REPLACE "^#![^\n]*\n" "" CLEAN_CONTENT "${CONTENT}")\<close>: in the quoted
  argument \<^verbatim>\<open>\n\<close> is the line feed, so the expression is \<^verbatim>\<open>#!\<close>, any number of characters
  other than the line feed, and one line feed. \<open>match_directive\<close> is one search: the
  expression is anchored, so it matches at the start of the searched text or not at all,
  and a match ends behind the first line feed; the result is the text behind the match.
\<close>

definition match_directive :: "string \<Rightarrow> string option" where
  "match_directive s =
     (case s of
        c1 # c2 # rest \<Rightarrow>
          if c1 = CHR ''#'' \<and> c2 = CHR ''!'' then
            (case dropWhile (\<lambda>c. c \<noteq> newline) rest of
               [] \<Rightarrow> None
             | nl # after \<Rightarrow> Some after)
          else None
      | _ \<Rightarrow> None)"

text \<open>
  \<^verbatim>\<open>REGEX REPLACE\<close> replaces every match: after a match it searches again in the text
  behind it. The script sets no policy, so the policy \<^verbatim>\<open>CMP0186\<close> is not set and \<^verbatim>\<open>^\<close>
  matches at the start of every such search: the replacement removes every directive
  line in the run of directive lines the content starts with, and stops at the first
  search without a match.
\<close>

function strip_shebang :: "string \<Rightarrow> string" where
  "strip_shebang CONTENT =
     (case match_directive CONTENT of
        Some after \<Rightarrow> strip_shebang after
      | None \<Rightarrow> CONTENT)"
  by pat_completeness auto
termination
proof (relation "measure length")
  show "wf (measure length)" by simp
next
  fix CONTENT after :: string
  assume m: "match_directive CONTENT = Some after"
  then obtain c1 c2 rest nl where c: "CONTENT = c1 # c2 # rest"
    and d: "dropWhile (\<lambda>c. c \<noteq> newline) rest = nl # after"
    by (auto simp: match_directive_def split: list.splits if_splits)
  have "length (dropWhile (\<lambda>c. c \<noteq> newline) rest) \<le> length rest"
    by (rule length_dropWhile_le)
  then have "length after < length CONTENT" using c d by simp
  then show "(after, CONTENT) \<in> measure length" by simp
qed

declare strip_shebang.simps [simp del]

text \<open>The bytes of the temporary file \<^verbatim>\<open>${OUTPUT_FILE}.tmp\<close>, from the bytes of the script.\<close>

definition clean_file :: "string \<Rightarrow> string" where
  "clean_file bytes = write_text (strip_shebang (read_text bytes))"

text \<open>\<^verbatim>\<open>file(READ ... RAW_HEX HEX)\<close>: two lower-case hexadecimal digits per byte.\<close>

definition hexdigit :: "nat \<Rightarrow> char" where
  "hexdigit n = ''0123456789abcdef'' ! n"

definition hex_byte :: "char \<Rightarrow> string" where
  "hex_byte c = [hexdigit (of_char c div 16), hexdigit (of_char c mod 16)]"

definition read_hex :: "string \<Rightarrow> string" where
  "read_hex s = concat (map hex_byte s)"

text \<open>
  \<^verbatim>\<open>string(REGEX REPLACE "([0-9a-f][0-9a-f])" "0x\\1," FORMATTED_HEX "${RAW_HEX}")\<close>: from
  left to right, two hexadecimal digits in a row become \<^verbatim>\<open>0x\<close>, the two digits and a
  comma; a character that starts no such pair is copied.
\<close>

definition is_hex :: "char \<Rightarrow> bool" where
  "is_hex c = (c \<in> set ''0123456789abcdef'')"

fun format_hex :: "string \<Rightarrow> string" where
  "format_hex (a # b # rest) =
     (if is_hex a \<and> is_hex b then ''0x'' @ [a, b] @ '','' @ format_hex rest
      else a # format_hex (b # rest))"
| "format_hex [a] = [a]"
| "format_hex [] = []"

text \<open>
  The text the script writes between the braces of
  \<^verbatim>\<open>static const unsigned char ldoc_source_bytes[] = { ... };\<close>: the formatted bytes, a line
  feed, \<^verbatim>\<open>0x00\<close> and a line feed.
\<close>

definition initializer :: "string \<Rightarrow> string" where
  "initializer bytes =
     format_hex (read_hex (clean_file bytes)) @ [newline] @ ''0x00'' @ [newline]"

text \<open>
  What the C compiler makes of that initializer: one array element per constant
  \<^verbatim>\<open>0xHH\<close>; commas (the last one trailing) and white space separate the constants.
\<close>

definition unhex :: "char \<Rightarrow> nat" where
  "unhex c = (if (of_char c :: nat) < 58 then of_char c - 48 else of_char c - 87)"

fun c_array :: "string \<Rightarrow> string" where
  "c_array (z # x # a # b # rest) =
     (if z = CHR ''0'' \<and> x = CHR ''x'' then char_of (16 * unhex a + unhex b) # c_array rest
      else c_array (x # a # b # rest))"
| "c_array (c # rest) = c_array rest"
| "c_array [] = []"

text \<open>
  The two objects of the generated header, as functions of the script text: the array,
  and \<^verbatim>\<open>sizeof(ldoc_source_bytes) - 1\<close> converted to \<^verbatim>\<open>unsigned int\<close>, which has 32 bits
  (the array has at least the element \<^verbatim>\<open>0x00\<close>, so the subtraction does not wrap).
\<close>

definition ldoc_source_bytes :: "string \<Rightarrow> string" where
  "ldoc_source_bytes CONTENT = c_array (initializer CONTENT)"

definition ldoc_source_size :: "string \<Rightarrow> 32 word" where
  "ldoc_source_size CONTENT = of_nat (length (ldoc_source_bytes CONTENT) - 1)"

text \<open>The bytes \<^verbatim>\<open>luaL_loadbuffer\<close> compiles in the embedded variant built from a script.\<close>

definition embedded_chunk :: "string \<Rightarrow> string" where
  "embedded_chunk CONTENT =
     take (unat (ldoc_source_size CONTENT)) (ldoc_source_bytes CONTENT)"

subsection \<open>Notions the properties are stated with\<close>

text \<open>Removing the backslashes at the end, and at the start, of a string.\<close>

definition strip_trailing :: "string \<Rightarrow> string" where
  "strip_trailing s = rev (dropWhile (\<lambda>c. c = bslash) (rev s))"

definition strip_leading :: "string \<Rightarrow> string" where
  "strip_leading s = dropWhile (\<lambda>c. c = bslash) s"

text \<open>How many backslashes a string starts with, and ends with.\<close>

definition leading_seps :: "string \<Rightarrow> nat" where
  "leading_seps s = length (takeWhile (\<lambda>c. c = bslash) s)"

definition trailing_seps :: "string \<Rightarrow> nat" where
  "trailing_seps s = length (takeWhile (\<lambda>c. c = bslash) (rev s))"

text \<open>The Lua sequence \<^verbatim>\<open>{x1, ..., xn}\<close>: the keys 1 to \<open>n\<close>.\<close>

fun seq_from :: "int \<Rightarrow> string list \<Rightarrow> ltable" where
  "seq_from i [] = []"
| "seq_from i (x # xs) = (i, x) # seq_from (i + 1) xs"

definition seq_table :: "string list \<Rightarrow> ltable" where
  "seq_table xs = seq_from 1 xs"

text \<open>The entry for a root and a template, both cleaned, with one backslash between.\<close>

definition clean_entry :: "string \<Rightarrow> string \<Rightarrow> string" where
  "clean_entry R T = strip_trailing R @ [bslash] @ strip_trailing (strip_leading T)"

text \<open>The entries in their order, with one \<^verbatim>\<open>;\<close> in front of each but the first.\<close>

definition joined :: "string list \<Rightarrow> string" where
  "joined es = (case es of [] \<Rightarrow> [] | e # rest \<Rightarrow> e @ concat (map (\<lambda>x. CHR '';'' # x) rest))"

text \<open>The entry of the global table \<^verbatim>\<open>arg\<close> under a key.\<close>

definition arg_at :: "lua_State \<Rightarrow> int \<Rightarrow> string option" where
  "arg_at L k = (case globals L ''arg'' of LTable t \<Rightarrow> map_of t k | _ \<Rightarrow> None)"

text \<open>
  A line of the form \<^verbatim>\<open><exeName>: <category>: <details>\<close>: it starts with the
  executable's name, a colon and a space, and what follows holds another colon and space.
\<close>

fun has_colon_space :: "string \<Rightarrow> bool" where
  "has_colon_space (a # b # rest) = ((a = CHR '':'' \<and> b = CHR '' '') \<or> has_colon_space (b # rest))"
| "has_colon_space [a] = False"
| "has_colon_space [] = False"

definition has_format :: "string \<Rightarrow> bool" where
  "has_format line =
     (take (length appName + 2) line = appName @ '': ''
      \<and> has_colon_space (drop (length appName + 2) line))"

text \<open>
  The forms the launchers' diagnostics have: the name, one of four categories and the
  runtime's message, or the name and one of two fixed messages.
\<close>

definition categories :: "string list" where
  "categories =
     [''Error setting paths'', ''Error'', ''Runtime error'', ''Syntax error in embedded code'']"

definition fixed_messages :: "string list" where
  "fixed_messages = [''Could not find executable path.'', ''Failed to create Lua state.'']"

definition with_category :: "string \<Rightarrow> string \<Rightarrow> bool" where
  "with_category line cat =
     (take (length (appName @ '': '' @ cat @ '': '')) line = appName @ '': '' @ cat @ '': ''
      \<and> last line = newline)"

definition diag_form :: "string \<Rightarrow> bool" where
  "diag_form line =
     (list_ex (with_category line) categories
      \<or> list_ex (\<lambda>m. line = appName @ '': '' @ m @ [newline]) fixed_messages)"

text \<open>
  Removing the first line of a text that starts with \<^verbatim>\<open>#!\<close>, with its line feed if it
  has one.
\<close>

definition without_directive :: "string \<Rightarrow> string" where
  "without_directive s =
     (if take 2 s = ''#!'' then drop 1 (dropWhile (\<lambda>c. c \<noteq> newline) s) else s)"

text \<open>
  An environment in which every step succeeds, installed under \<^verbatim>\<open>C:\OneLuaPro\<close> with
  Lua 5.4, and the script path of the on-disk variant.
\<close>

definition env_ok :: env where
  "env_ok =
     \<lparr>exe_path_ok = True, install_prefix = ''C:'' @ [bslash] @ ''OneLuaPro'',
      newstate_ok = True, default_path = ''?.lua'', default_cpath = ''?.dll'',
      lua_version_major = ''5'', lua_version_minor = ''4'',
      bridge_def_error = None, bridge_run_error = None,
      payload_load_error = (\<lambda>_. None), payload_run_error = (\<lambda>_. None)\<rparr>"

definition scriptPath :: "env \<Rightarrow> string" where
  "scriptPath e = install_prefix e @ [bslash] @ ''bin'' @ [bslash] @ ''ldoc.lua''"

text \<open>
  The table after the stores \<^verbatim>\<open>t[i] = x1\<close>, \<^verbatim>\<open>t[i + 1] = x2\<close>, ... in this order.
\<close>

fun store_from :: "ltable \<Rightarrow> int \<Rightarrow> string list \<Rightarrow> ltable" where
  "store_from t i [] = t"
| "store_from t i (x # xs) = store_from (AList.update i x t) (i + 1) xs"

section \<open>Properties\<close>

subsection \<open>The patterns of \<^verbatim>\<open>setPaths\<close> strip backslashes\<close>

lemma run_length_takeWhile: "run_length c xs = length (takeWhile (\<lambda>x. x = c) xs)"
  by (induction xs) auto

lemma run_length_full: "(length xs \<le> run_length c xs) = (\<forall>x \<in> set xs. x = c)"
  by (induction xs) auto

lemma max_expand_end: "max_expand match_end s i = (if length s \<le> i then Some [] else None)"
  by (induction i) (auto simp: match_end_def)

lemma max_expand_done: "max_expand match_done s i = Some (drop i s)"
  by (induction i) (auto simp: match_done_def)

lemma match_plus_end:
  "match_plus bslash match_end s =
     (if s \<noteq> [] \<and> (\<forall>x \<in> set s. x = bslash) then Some [] else None)"
  by (cases s) (auto simp: match_plus_def max_expand_end run_length_full)

lemma match_plus_done:
  "match_plus bslash match_done s =
     (case s of [] \<Rightarrow> None
      | x # xs \<Rightarrow> if x = bslash then Some (dropWhile (\<lambda>c. c = bslash) xs) else None)"
  by (cases s) (auto simp: match_plus_def max_expand_done run_length_takeWhile dropWhile_eq_drop)

lemma strip_trailing_Cons:
  "strip_trailing (x # xs) =
     (if \<forall>y \<in> set (x # xs). y = bslash then [] else x # strip_trailing xs)"
  by (auto simp: strip_trailing_def dropWhile_append)

lemma gsub_trailing_strip: "gsub_trailing s = strip_trailing s"
proof (induction s)
  case Nil
  show ?case
    by (simp add: gsub_trailing_def strip_trailing_def gsub_loop.simps match_plus_end)
next
  case (Cons x xs)
  show ?case
  proof (cases "\<forall>y \<in> set (x # xs). y = bslash")
    case True
    then have "match_plus bslash match_end (x # xs) = Some []"
      by (simp add: match_plus_end)
    then have "gsub_trailing (x # xs) = gsub_loop (match_plus bslash match_end) [] []"
      by (simp add: gsub_trailing_def gsub_loop.simps [of _ _ "x # xs"])
    also have "\<dots> = []"
      by (simp add: gsub_loop.simps match_plus_end)
    finally show ?thesis using True by (simp add: strip_trailing_Cons)
  next
    case False
    then have "match_plus bslash match_end (x # xs) = None"
      by (simp add: match_plus_end)
    then have "gsub_trailing (x # xs) = x # gsub_trailing xs"
      by (simp add: gsub_trailing_def gsub_loop.simps [of _ _ "x # xs"])
    then show ?thesis using False Cons.IH by (simp add: strip_trailing_Cons)
  qed
qed

lemma gsub_leading_strip: "gsub_leading s = strip_leading s"
  by (cases s) (auto simp: gsub_leading_def gsub_anchored_def match_plus_done strip_leading_def)

lemma takeWhile_dropWhile_same: "takeWhile P (dropWhile P xs) = []"
  by (induction xs) auto

lemma trailing_seps_strip: "trailing_seps (strip_trailing s) = 0"
  by (simp add: trailing_seps_def strip_trailing_def takeWhile_dropWhile_same)

lemma leading_seps_strip: "leading_seps (strip_leading s) = 0"
  by (simp add: leading_seps_def strip_leading_def takeWhile_dropWhile_same)

lemma leading_seps_strip_both: "leading_seps (strip_trailing (strip_leading s)) = 0"
proof (cases "strip_leading s")
  case Nil
  then show ?thesis by (simp add: strip_trailing_def leading_seps_def)
next
  case (Cons x xs)
  have "leading_seps (strip_leading s) = 0" by (rule leading_seps_strip)
  with Cons have "x \<noteq> bslash" by (simp add: leading_seps_def split: if_splits)
  then show ?thesis using Cons by (simp add: strip_trailing_Cons leading_seps_def)
qed

lemma leading_seps_join: "leading_seps s = 0 \<Longrightarrow> leading_seps (bslash # s) = 1"
  by (simp add: leading_seps_def)

lemma trailing_seps_join: "trailing_seps s = 0 \<Longrightarrow> trailing_seps (s @ [bslash]) = 1"
  by (simp add: trailing_seps_def)

subsection \<open>Sequences and \<^verbatim>\<open>ipairs\<close>\<close>

lemma ipairs_from_cong:
  "(\<And>k. j \<le> k \<Longrightarrow> map_of t k = map_of t' k) \<Longrightarrow> ipairs_from t j = ipairs_from t' j"
proof (induction t j rule: ipairs_from.induct)
  case (1 t i)
  show ?case
  proof (cases "map_of t i")
    case None
    then show ?thesis using "1.prems" [of i] by (simp add: ipairs_from.simps [of _ i])
  next
    case (Some v)
    have "ipairs_from t (i + 1) = ipairs_from t' (i + 1)"
      using "1.IH" [OF Some] "1.prems" by simp
    then show ?thesis using Some "1.prems" [of i] by (simp add: ipairs_from.simps [of _ i])
  qed
qed

lemma ipairs_from_seq_from: "ipairs_from (seq_from i xs) i = xs"
proof (induction xs arbitrary: i)
  case Nil
  show ?case by (simp add: ipairs_from.simps)
next
  case (Cons x xs)
  have "ipairs_from ((i, x) # seq_from (i + 1) xs) (i + 1) = ipairs_from (seq_from (i + 1) xs) (i + 1)"
    by (rule ipairs_from_cong) simp
  then show ?case using Cons.IH [of "i + 1"] by (simp add: ipairs_from.simps [of _ i])
qed

lemma ipairs_seq_table: "ipairs (seq_table xs) = xs"
  by (simp add: ipairs_def seq_table_def ipairs_from_seq_from)

subsection \<open>What \<^verbatim>\<open>setPaths\<close> assigns\<close>

lemma insert_full_map:
  "insert_full b vs full = full @ map (\<lambda>v. b @ [bslash] @ gsub_trailing (gsub_leading v)) vs"
  by (induction vs arbitrary: full) auto

lemma table_concat_joined: "table_concat es '';'' = joined es"
  by (induction es "'';''" rule: table_concat.induct) (auto simp: joined_def)

lemma setPaths_ipairs:
  "setPaths R p c =
     (joined (map (clean_entry R) (ipairs p)), joined (map (clean_entry R) (ipairs c)))"
  by (simp add: setPaths_def Let_def insert_full_map table_concat_joined
      gsub_trailing_strip gsub_leading_strip clean_entry_def [abs_def])

lemma count_concat_sep:
  "count_list (concat (map (\<lambda>x. CHR '';'' # x) rest)) (CHR '';'') =
     length rest + sum_list (map (\<lambda>e. count_list e (CHR '';'')) rest)"
  by (induction rest) auto

lemma count_joined:
  assumes "es \<noteq> []"
  shows "count_list (joined es) (CHR '';'') =
     (length es - 1) + sum_list (map (\<lambda>e. count_list e (CHR '';'')) es)"
proof -
  from assms obtain e rest where es: "es = e # rest" by (cases es) auto
  show ?thesis by (simp add: es joined_def count_concat_sep)
qed

lemma length_concat_sep:
  "length (concat (map (\<lambda>x. CHR '';'' # x) rest)) = length rest + sum_list (map length rest)"
  by (induction rest) auto

lemma length_joined:
  assumes "es \<noteq> []"
  shows "length (joined es) = sum_list (map length es) + (length es - 1)"
proof -
  from assms obtain e rest where es: "es = e # rest" by (cases es) auto
  show ?thesis by (simp add: es joined_def length_concat_sep)
qed

text \<open>
  C3. For a root \<open>R\<close> and a template \<open>T\<close> with any number of backslashes at their ends,
  \<^verbatim>\<open>setPaths\<close> assigns the root without its trailing backslashes, one backslash, and the
  template without its leading and trailing backslashes (to \<^verbatim>\<open>package.path\<close>; the same
  for a template \<open>U\<close> and \<^verbatim>\<open>package.cpath\<close>). The cleaned root ends with no backslash and
  the cleaned template starts and ends with none, so the run of backslashes at the join
  is exactly one long, seen from the root's side and from the template's side.
\<close>

theorem setPaths_one_separator:
  "setPaths R (seq_table [T]) (seq_table [U]) =
     (strip_trailing R @ [bslash] @ strip_trailing (strip_leading T),
      strip_trailing R @ [bslash] @ strip_trailing (strip_leading U))
   \<and> trailing_seps (strip_trailing R) = 0
   \<and> leading_seps (strip_trailing (strip_leading T)) = 0
   \<and> trailing_seps (strip_trailing (strip_leading T)) = 0
   \<and> trailing_seps (strip_trailing R @ [bslash]) = 1
   \<and> leading_seps (bslash # strip_trailing (strip_leading T)) = 1"
  by (simp add: setPaths_ipairs ipairs_seq_table joined_def clean_entry_def trailing_seps_strip
      leading_seps_strip_both leading_seps_join trailing_seps_join)

theorem setPaths_one_separator_witness:
  "setPaths (''C:'' @ [bslash] @ ''Lua'' @ [bslash, bslash])
     (seq_table [[bslash, bslash] @ ''bin'' @ [bslash] @ ''?.lua'' @ [bslash]])
     (seq_table [[bslash] @ ''?.dll''])
   = (''C:'' @ [bslash] @ ''Lua'' @ [bslash] @ ''bin'' @ [bslash] @ ''?.lua'',
      ''C:'' @ [bslash] @ ''Lua'' @ [bslash] @ ''?.dll'')"
  using setPaths_one_separator [of "''C:'' @ [bslash] @ ''Lua'' @ [bslash, bslash]"
      "[bslash, bslash] @ ''bin'' @ [bslash] @ ''?.lua'' @ [bslash]" "[bslash] @ ''?.dll''"]
  by (simp add: strip_trailing_def strip_leading_def)

text \<open>
  C4. For a base path and a list of \<open>N \<ge> 1\<close> templates, the string \<^verbatim>\<open>setPaths\<close> assigns to
  \<^verbatim>\<open>package.path\<close> (and likewise, for the list given as third argument, to
  \<^verbatim>\<open>package.cpath\<close>) is the first entry followed by \<^verbatim>\<open>;\<close> and the next entry, in the order
  of the list: its length is the entries' lengths plus \<open>N - 1\<close>, and it holds \<open>N - 1\<close>
  characters \<^verbatim>\<open>;\<close> beyond those inside the entries.
\<close>

theorem setPaths_joins_in_order:
  assumes "ts \<noteq> []"
  shows "fst (setPaths R (seq_table ts) c) =
           clean_entry R (hd ts) @ concat (map (\<lambda>T. CHR '';'' # clean_entry R T) (tl ts))
       \<and> snd (setPaths R p (seq_table ts)) = fst (setPaths R (seq_table ts) c)
       \<and> length (fst (setPaths R (seq_table ts) c)) =
           sum_list (map (\<lambda>T. length (clean_entry R T)) ts) + (length ts - 1)
       \<and> count_list (fst (setPaths R (seq_table ts) c)) (CHR '';'') =
           (length ts - 1) + sum_list (map (\<lambda>T. count_list (clean_entry R T) (CHR '';'')) ts)"
proof -
  from assms obtain t rest where ts: "ts = t # rest" by (cases ts) auto
  have ne: "map (clean_entry R) ts \<noteq> []" using assms by simp
  have a: "fst (setPaths R (seq_table ts) c) = joined (map (clean_entry R) ts)"
    by (simp add: setPaths_ipairs ipairs_seq_table)
  have b: "snd (setPaths R p (seq_table ts)) = joined (map (clean_entry R) ts)"
    by (simp add: setPaths_ipairs ipairs_seq_table)
  have c: "joined (map (clean_entry R) ts) =
      clean_entry R (hd ts) @ concat (map (\<lambda>T. CHR '';'' # clean_entry R T) (tl ts))"
    by (simp add: ts joined_def comp_def)
  have d: "length (joined (map (clean_entry R) ts)) =
      sum_list (map (\<lambda>T. length (clean_entry R T)) ts) + (length ts - 1)"
    using length_joined [OF ne] by (simp add: comp_def)
  have e: "count_list (joined (map (clean_entry R) ts)) (CHR '';'') =
      (length ts - 1) + sum_list (map (\<lambda>T. count_list (clean_entry R T) (CHR '';'')) ts)"
    using count_joined [OF ne] by (simp add: comp_def)
  show ?thesis using a b c d e by simp
qed

theorem setPaths_joins_in_order_witness:
  "[''a'' @ [bslash], [bslash] @ ''b'', ''c''] \<noteq> []
   \<and> fst (setPaths (''C:'' @ [bslash]) (seq_table [''a'' @ [bslash], [bslash] @ ''b'', ''c'']) [])
       = ''C:'' @ [bslash] @ ''a;C:'' @ [bslash] @ ''b;C:'' @ [bslash] @ ''c''
   \<and> count_list
        (fst (setPaths (''C:'' @ [bslash]) (seq_table [''a'' @ [bslash], [bslash] @ ''b'', ''c'']) []))
        (CHR '';'') = 2"
  using setPaths_joins_in_order [of "[''a'' @ [bslash], [bslash] @ ''b'', ''c'']"
      "''C:'' @ [bslash]" "[]" "[]"]
  by (simp add: clean_entry_def strip_trailing_def strip_leading_def)

subsection \<open>The tables \<^verbatim>\<open>main\<close> builds\<close>

lemma map_of_seq_from:
  "map_of (seq_from i xs) k =
     (if i \<le> k \<and> k < i + int (length xs) then Some (xs ! nat (k - i)) else None)"
proof (induction xs arbitrary: i)
  case Nil
  show ?case by simp
next
  case (Cons x xs)
  have "i < k \<Longrightarrow> nat (k - i) = Suc (nat (k - (i + 1)))" by simp
  then show ?case using Cons.IH [of "i + 1"] by auto
qed

lemma map_of_store_from:
  "map_of (store_from t i xs) k =
     (if i \<le> k \<and> k < i + int (length xs) then Some (xs ! nat (k - i)) else map_of t k)"
proof (induction xs arbitrary: t i)
  case Nil
  show ?case by auto
next
  case (Cons x xs)
  have "i < k \<Longrightarrow> nat (k - i) = Suc (nat (k - (i + 1)))" by simp
  then show ?case using Cons.IH [of "AList.update i x t" "i + 1"]
    by (auto simp: update_conv')
qed

lemma ipairs_store_from: "ipairs (store_from [] 1 xs) = xs"
proof -
  have "ipairs_from (store_from [] 1 xs) 1 = ipairs_from (seq_from 1 xs) 1"
    by (rule ipairs_from_cong) (simp add: map_of_store_from map_of_seq_from)
  then show ?thesis by (simp add: ipairs_def ipairs_from_seq_from)
qed

lemma lua_rawseti_top:
  "stack L = LString v # LTable t # rest \<Longrightarrow>
     lua_rawseti L (- 2) n = L\<lparr>stack := LTable (AList.update n v t) # rest\<rparr>"
  by (simp add: lua_rawseti_def)

lemma push_argv_table:
  "stack L = LTable t # rest \<Longrightarrow>
     push_argv L as i = L\<lparr>stack := LTable (store_from t i as) # rest\<rparr>"
proof (induction as arbitrary: L t i)
  case Nil
  then show ?case by (cases L) simp
next
  case (Cons a as)
  let ?L1 = "lua_pushstring L a"
  have s1: "stack ?L1 = LString a # LTable t # rest"
    using Cons.prems by (simp add: lua_pushstring_def)
  have r: "lua_rawseti ?L1 (- 2) i = L\<lparr>stack := LTable (AList.update i a t) # rest\<rparr>"
    using lua_rawseti_top [OF s1] by (simp add: lua_pushstring_def)
  have "push_argv (L\<lparr>stack := LTable (AList.update i a t) # rest\<rparr>) as (i + 1) =
      L\<lparr>stack := LTable (AList.update i a t) # rest\<rparr>
       \<lparr>stack := LTable (store_from (AList.update i a t) (i + 1) as) # rest\<rparr>"
    by (rule Cons.IH) simp
  then show ?case using r by simp
qed

lemma push_templates_table:
  "stack L = LTable t # rest \<Longrightarrow>
     push_templates L ts i = L\<lparr>stack := LTable (store_from t (i + 1) ts) # rest\<rparr>"
proof (induction ts arbitrary: L t i)
  case Nil
  then show ?case by (cases L) simp
next
  case (Cons a as)
  let ?L1 = "lua_pushstring L a"
  have s1: "stack ?L1 = LString a # LTable t # rest"
    using Cons.prems by (simp add: lua_pushstring_def)
  have r: "lua_rawseti ?L1 (- 2) (i + 1) = L\<lparr>stack := LTable (AList.update (i + 1) a t) # rest\<rparr>"
    using lua_rawseti_top [OF s1] by (simp add: lua_pushstring_def)
  have "push_templates (L\<lparr>stack := LTable (AList.update (i + 1) a t) # rest\<rparr>) as (i + 1) =
      L\<lparr>stack := LTable (AList.update (i + 1) a t) # rest\<rparr>
       \<lparr>stack := LTable (store_from (AList.update (i + 1) a t) (i + 1 + 1) as) # rest\<rparr>"
    by (rule Cons.IH) simp
  then show ?case using r by simp
qed

subsection \<open>The state before and after the call of \<^verbatim>\<open>setPaths\<close>\<close>

lemma before_call_eq:
  "before_call e argv =
     \<lparr>stack =
        [LTable (store_from [] 1 (LUA_CPATHS e)), LTable (store_from [] 1 (LUA_PATHS e)),
         LString (install_prefix e),
         (case bridge_def_error e of None \<Rightarrow> LBridge | Some m \<Rightarrow> LNil)]
        @ (case bridge_def_error e of None \<Rightarrow> [] | Some m \<Rightarrow> [LString m]),
      globals =
        (case bridge_def_error e of
           None \<Rightarrow> (\<lambda>_. LNil)(''arg'' := LTable (store_from [] 0 argv), ''setPaths'' := LBridge)
         | Some m \<Rightarrow> (\<lambda>_. LNil)(''arg'' := LTable (store_from [] 0 argv))),
      package_path = default_path e, package_cpath = default_cpath e\<rparr>"
proof -
  let ?L1 = "luaL_openlibs e luaL_newstate"
  have a: "push_argv (lua_newtable ?L1) argv 0 =
      (lua_newtable ?L1)\<lparr>stack := LTable (store_from [] 0 argv) # []\<rparr>"
    by (rule push_argv_table) (simp add: lua_newtable_def luaL_openlibs_def luaL_newstate_def)
  have b: "\<And>L ts. push_templates (lua_newtable L) ts 0 =
      (lua_newtable L)\<lparr>stack := LTable (store_from [] (0 + 1) ts) # stack L\<rparr>"
    by (rule push_templates_table) (simp add: lua_newtable_def)
  show ?thesis
    unfolding before_call_def Let_def a b
    by (simp add: lua_newtable_def luaL_openlibs_def luaL_newstate_def lua_setglobal_def
        luaL_dostring_def lua_getglobal_def lua_pushstring_def split: option.splits)
qed

lemma lua_pcall3_globals: "globals (snd (lua_pcall3 e L)) = globals L"
  by (simp add: lua_pcall3_def split: list.splits sum.splits prod.splits)

lemma pcall3_before_call:
  "lua_pcall3 e (before_call e argv) =
     (case bridge_def_error e of
        Some m \<Rightarrow>
          (2, (before_call e argv)
                \<lparr>stack := [LString ''attempt to call a nil value'', LString m]\<rparr>)
      | None \<Rightarrow>
          (case bridge_run_error e of
             Some m \<Rightarrow> (2, (before_call e argv)\<lparr>stack := [LString m]\<rparr>)
           | None \<Rightarrow>
               (0, (before_call e argv)
                     \<lparr>stack := [],
                      package_path := joined (map (clean_entry (install_prefix e)) (LUA_PATHS e)),
                      package_cpath := joined (map (clean_entry (install_prefix e)) (LUA_CPATHS e))\<rparr>)))"
  by (simp add: before_call_eq lua_pcall3_def call_value_def setPaths_ipairs ipairs_store_from
      split: option.splits)

lemma startup_eq:
  "startup e argv =
     (case bridge_def_error e of
        Some m \<Rightarrow>
          ((before_call e argv)\<lparr>stack := [LString ''attempt to call a nil value'', LString m]\<rparr>,
           [Fprintf (appName @ '': Error setting paths: attempt to call a nil value'' @ [newline])])
      | None \<Rightarrow>
          (case bridge_run_error e of
             Some m \<Rightarrow>
               ((before_call e argv)\<lparr>stack := [LString m]\<rparr>,
                [Fprintf (appName @ '': Error setting paths: '' @ m @ [newline])])
           | None \<Rightarrow>
               ((before_call e argv)
                  \<lparr>stack := [],
                   package_path := joined (map (clean_entry (install_prefix e)) (LUA_PATHS e)),
                   package_cpath := joined (map (clean_entry (install_prefix e)) (LUA_CPATHS e))\<rparr>,
                [])))"
  by (simp add: startup_def pcall3_before_call lua_tostring_def split: option.splits)

lemma startup_out_cases:
  "snd (startup e argv) = [] \<or>
   snd (startup e argv) =
     [Fprintf (appName @ '': Error setting paths: ''
        @ lua_tostring (snd (lua_pcall3 e (before_call e argv))) (- 1) @ [newline])]"
  by (simp add: startup_def split: prod.splits)

lemma startup_out_failed:
  "fst (lua_pcall3 e (before_call e argv)) \<noteq> 0 \<Longrightarrow>
   snd (startup e argv) =
     [Fprintf (appName @ '': Error setting paths: ''
        @ lua_tostring (snd (lua_pcall3 e (before_call e argv))) (- 1) @ [newline])]"
  by (cases "lua_pcall3 e (before_call e argv)") (simp add: startup_def)

lemma lua_tostring_top: "lua_tostring (L\<lparr>stack := LString m # rest\<rparr>) (- 1) = m"
  by (simp add: lua_tostring_def)

subsection \<open>The runs of the two launchers\<close>

lemma main_ondisk_created:
  assumes "exe_path_ok e" and "newstate_ok e"
  shows "main_ondisk e argv =
     (case payload_load_error e (scriptPath e) of
        Some m \<Rightarrow>
          (1, [NewState] @ snd (startup e argv)
                @ [LoadPayload (scriptPath e),
                   Fprintf (appName @ '': Error: '' @ m @ [newline]), Close])
      | None \<Rightarrow>
          (case payload_run_error e (scriptPath e) of
             Some m \<Rightarrow>
               (1, [NewState] @ snd (startup e argv)
                     @ [LoadPayload (scriptPath e), RunPayload (scriptPath e),
                        Fprintf (appName @ '': Error: '' @ m @ [newline]), Close])
           | None \<Rightarrow>
               (0, [NewState] @ snd (startup e argv)
                     @ [LoadPayload (scriptPath e), RunPayload (scriptPath e), Close])))"
proof -
  obtain L out where st: "startup e argv = (L, out)" by (cases "startup e argv")
  show ?thesis
    using assms
    by (simp add: main_ondisk_def st luaL_dofile_def lua_tostring_top scriptPath_def Let_def
        split: option.splits)
qed

lemma main_embedded_created:
  assumes "exe_path_ok e" and "newstate_ok e"
  shows "main_embedded e argv bytes n =
     (case payload_load_error e (take (unat n) bytes) of
        Some m \<Rightarrow>
          (0, [NewState] @ snd (startup e argv)
                @ [LoadPayload (take (unat n) bytes),
                   Fprintf (appName @ '': Syntax error in embedded code: '' @ m @ [newline]),
                   Close])
      | None \<Rightarrow>
          (case payload_run_error e (take (unat n) bytes) of
             Some m \<Rightarrow>
               (0, [NewState] @ snd (startup e argv)
                     @ [LoadPayload (take (unat n) bytes), RunPayload (take (unat n) bytes),
                        Fprintf (appName @ '': Runtime error: '' @ m @ [newline]), Close])
           | None \<Rightarrow>
               (0, [NewState] @ snd (startup e argv)
                     @ [LoadPayload (take (unat n) bytes), RunPayload (take (unat n) bytes),
                        Close])))"
proof -
  obtain L out where st: "startup e argv = (L, out)" by (cases "startup e argv")
  show ?thesis
    using assms
    by (simp add: main_embedded_def st luaL_loadbuffer_def lua_pcall0_def lua_tostring_top Let_def
        split: option.splits)
qed

lemma stderr_of_append: "stderr_of (xs @ ys) = stderr_of xs @ stderr_of ys"
  by (induction xs rule: stderr_of.induct) auto

lemma startup_globals: "globals (fst (startup e argv)) = globals (before_call e argv)"
  by (simp add: startup_eq split: option.splits)

lemma before_call_arg: "globals (before_call e argv) ''arg'' = LTable (store_from [] 0 argv)"
  by (simp add: before_call_eq split: option.splits)

text \<open>
  C5. In the state in which the payload is loaded, the global table \<^verbatim>\<open>arg\<close> holds under
  every key \<open>k\<close> with \<open>0 \<le> k < argc\<close> the string \<^verbatim>\<open>argv[k]\<close>, unchanged and at its own
  index, and nothing under any other key.
\<close>

theorem arg_table_is_argv:
  "arg_at (fst (startup e argv)) k =
     (if 0 \<le> k \<and> k < int (length argv) then Some (argv ! nat k) else None)"
  by (simp add: arg_at_def startup_globals before_call_arg map_of_store_from)

theorem arg_table_is_argv_witness:
  "arg_at (fst (startup env_ok [''exe'', ''a'', ''b''])) 0 = Some ''exe''
   \<and> arg_at (fst (startup env_ok [''exe'', ''a'', ''b''])) 1 = Some ''a''
   \<and> arg_at (fst (startup env_ok [''exe'', ''a'', ''b''])) 2 = Some ''b''
   \<and> arg_at (fst (startup env_ok [''exe'', ''a'', ''b''])) 3 = None"
  using arg_table_is_argv [of env_ok "[''exe'', ''a'', ''b'']" 0]
    arg_table_is_argv [of env_ok "[''exe'', ''a'', ''b'']" 1]
    arg_table_is_argv [of env_ok "[''exe'', ''a'', ''b'']" 2]
    arg_table_is_argv [of env_ok "[''exe'', ''a'', ''b'']" 3]
  by simp

lemma count_startup_out:
  "count_list (snd (startup e argv)) Close = 0 \<and> count_list (snd (startup e argv)) NewState = 0"
  using startup_out_cases [of e argv] by auto

text \<open>
  C6. On every run that created the Lua state, in both variants, the state is created
  once and released once, and the release is the last thing the run does: whether the
  payload ran, did not compile, or raised an error.
\<close>

theorem runtime_closed_once:
  assumes "exe_path_ok e" and "newstate_ok e"
  shows "count_list (snd (main_ondisk e argv)) NewState = 1
       \<and> count_list (snd (main_ondisk e argv)) Close = 1
       \<and> last (snd (main_ondisk e argv)) = Close
       \<and> count_list (snd (main_embedded e argv bytes n)) NewState = 1
       \<and> count_list (snd (main_embedded e argv bytes n)) Close = 1
       \<and> last (snd (main_embedded e argv bytes n)) = Close"
  using count_startup_out [of e argv]
  by (simp add: main_ondisk_created [OF assms] main_embedded_created [OF assms]
      split: option.splits)

theorem runtime_closed_once_witness:
  "count_list (snd (main_ondisk (env_ok\<lparr>payload_run_error := (\<lambda>_. Some ''boom'')\<rparr>) [''ldoc.exe'']))
      Close = 1
   \<and> last (snd (main_ondisk (env_ok\<lparr>payload_run_error := (\<lambda>_. Some ''boom'')\<rparr>) [''ldoc.exe'']))
      = Close
   \<and> count_list
        (snd (main_embedded (env_ok\<lparr>payload_run_error := (\<lambda>_. Some ''boom'')\<rparr>) [''ldoc.exe'']
           (''('' @ [CHR 0x00]) 1)) Close = 1"
  using runtime_closed_once [of "env_ok\<lparr>payload_run_error := (\<lambda>_. Some ''boom'')\<rparr>"
      "[''ldoc.exe'']" "''('' @ [CHR 0x00]" 1]
  by (simp add: env_ok_def)

lemma scriptPath_bridge [simp]:
  "scriptPath (e\<lparr>bridge_def_error := d, bridge_run_error := r\<rparr>) = scriptPath e"
  by (simp add: scriptPath_def)

text \<open>
  C7. When the call of \<^verbatim>\<open>setPaths\<close> fails, both launchers print the runtime's message
  behind \<^verbatim>\<open>Error setting paths\<close> and go on as after a call that succeeded: the run is
  the creation of the state, that line, the loading of the payload, the running of the
  payload if it loaded, the payload's own diagnostic if it failed, and the release of the
  state. The exit status is the one of the run in which, all else equal, \<^verbatim>\<open>setPaths\<close> is
  defined and runs without error: in the on-disk variant it is 0 exactly when the payload
  loads and runs, in the embedded variant it is 0.
\<close>

theorem bridge_failure_is_soft:
  assumes "exe_path_ok e" and "newstate_ok e"
    and "fst (lua_pcall3 e (before_call e argv)) \<noteq> 0"
  shows "snd (main_ondisk e argv) =
           [NewState,
            Fprintf (appName @ '': Error setting paths: ''
              @ lua_tostring (snd (lua_pcall3 e (before_call e argv))) (- 1) @ [newline]),
            LoadPayload (scriptPath e)]
           @ (case payload_load_error e (scriptPath e) of
                Some m \<Rightarrow> [Fprintf (appName @ '': Error: '' @ m @ [newline]), Close]
              | None \<Rightarrow>
                  RunPayload (scriptPath e)
                  # (case payload_run_error e (scriptPath e) of
                       Some m \<Rightarrow> [Fprintf (appName @ '': Error: '' @ m @ [newline]), Close]
                     | None \<Rightarrow> [Close]))
       \<and> (payload_load_error e (scriptPath e) = None \<longrightarrow>
            count_list (snd (main_ondisk e argv)) (RunPayload (scriptPath e)) = 1)
       \<and> fst (main_ondisk e argv) =
           (if payload_load_error e (scriptPath e) = None
               \<and> payload_run_error e (scriptPath e) = None then 0 else 1)
       \<and> fst (main_ondisk e argv) =
           fst (main_ondisk (e\<lparr>bridge_def_error := None, bridge_run_error := None\<rparr>) argv)
       \<and> snd (main_embedded e argv bytes n) =
           [NewState,
            Fprintf (appName @ '': Error setting paths: ''
              @ lua_tostring (snd (lua_pcall3 e (before_call e argv))) (- 1) @ [newline]),
            LoadPayload (take (unat n) bytes)]
           @ (case payload_load_error e (take (unat n) bytes) of
                Some m \<Rightarrow>
                  [Fprintf (appName @ '': Syntax error in embedded code: '' @ m @ [newline]),
                   Close]
              | None \<Rightarrow>
                  RunPayload (take (unat n) bytes)
                  # (case payload_run_error e (take (unat n) bytes) of
                       Some m \<Rightarrow>
                         [Fprintf (appName @ '': Runtime error: '' @ m @ [newline]), Close]
                     | None \<Rightarrow> [Close]))
       \<and> (payload_load_error e (take (unat n) bytes) = None \<longrightarrow>
            count_list (snd (main_embedded e argv bytes n)) (RunPayload (take (unat n) bytes)) = 1)
       \<and> fst (main_embedded e argv bytes n) = 0
       \<and> fst (main_embedded e argv bytes n) =
           fst (main_embedded (e\<lparr>bridge_def_error := None, bridge_run_error := None\<rparr>) argv bytes n)"
proof -
  let ?e' = "e\<lparr>bridge_def_error := None, bridge_run_error := None\<rparr>"
  have ok': "exe_path_ok ?e'" "newstate_ok ?e'" using assms by simp_all
  note out = startup_out_failed [OF assms(3)]
  show ?thesis
    by (simp add: main_ondisk_created [OF assms(1,2)] main_embedded_created [OF assms(1,2)]
        main_ondisk_created [OF ok'] main_embedded_created [OF ok'] out
        split: option.splits)
qed

theorem bridge_failure_is_soft_witness:
  "fst (lua_pcall3 (env_ok\<lparr>bridge_run_error := Some ''not enough memory''\<rparr>)
       (before_call (env_ok\<lparr>bridge_run_error := Some ''not enough memory''\<rparr>) [''ldoc.exe''])) \<noteq> 0
   \<and> main_ondisk (env_ok\<lparr>bridge_run_error := Some ''not enough memory''\<rparr>) [''ldoc.exe''] =
       (0, [NewState,
            Fprintf (''ldoc.exe: Error setting paths: not enough memory'' @ [newline]),
            LoadPayload (''C:'' @ [bslash] @ ''OneLuaPro'' @ [bslash] @ ''bin'' @ [bslash] @ ''ldoc.lua''),
            RunPayload (''C:'' @ [bslash] @ ''OneLuaPro'' @ [bslash] @ ''bin'' @ [bslash] @ ''ldoc.lua''),
            Close])
   \<and> main_embedded (env_ok\<lparr>bridge_run_error := Some ''not enough memory''\<rparr>) [''ldoc.exe'']
         (''x=1'' @ [CHR 0x00]) 3 =
       (0, [NewState,
            Fprintf (''ldoc.exe: Error setting paths: not enough memory'' @ [newline]),
            LoadPayload ''x=1'', RunPayload ''x=1'', Close])"
proof -
  let ?e = "env_ok\<lparr>bridge_run_error := Some ''not enough memory''\<rparr>"
  have a: "exe_path_ok ?e" and b: "newstate_ok ?e" by (simp_all add: env_ok_def)
  have c: "fst (lua_pcall3 ?e (before_call ?e [''ldoc.exe''])) \<noteq> 0"
    by (simp add: pcall3_before_call env_ok_def)
  have d: "lua_tostring (snd (lua_pcall3 ?e (before_call ?e [''ldoc.exe'']))) (- 1)
      = ''not enough memory''"
    by (simp add: pcall3_before_call env_ok_def lua_tostring_top)
  note t = bridge_failure_is_soft [OF a b c, of "''x=1'' @ [CHR 0x00]" 3]
  have o: "main_ondisk ?e [''ldoc.exe''] =
       (0, [NewState,
            Fprintf (''ldoc.exe: Error setting paths: not enough memory'' @ [newline]),
            LoadPayload (''C:'' @ [bslash] @ ''OneLuaPro'' @ [bslash] @ ''bin'' @ [bslash] @ ''ldoc.lua''),
            RunPayload (''C:'' @ [bslash] @ ''OneLuaPro'' @ [bslash] @ ''bin'' @ [bslash] @ ''ldoc.lua''),
            Close])"
    using t d by (simp add: prod_eq_iff env_ok_def scriptPath_def appName_def)
  have m: "main_embedded ?e [''ldoc.exe''] (''x=1'' @ [CHR 0x00]) 3 =
       (0, [NewState,
            Fprintf (''ldoc.exe: Error setting paths: not enough memory'' @ [newline]),
            LoadPayload ''x=1'', RunPayload ''x=1'', Close])"
    using t d by (simp add: prod_eq_iff env_ok_def scriptPath_def appName_def)
  show ?thesis using c o m by simp
qed

text \<open>
  C10. Neither launcher looks at the status of \<^verbatim>\<open>luaL_dostring\<close>. When the chunk that
  defines \<^verbatim>\<open>setPaths\<close> fails, the global is \<^verbatim>\<open>nil\<close>, the call through it fails, and the
  run is the creation of the state, the line
  \<^verbatim>\<open>Error setting paths: attempt to call a nil value\<close>, the loading of the payload, the
  running of the payload if it loaded, the payload's own diagnostic if it failed, and
  the release of the state. Whatever the definition and the call of \<^verbatim>\<open>setPaths\<close> did, a
  run that created the state loads the payload once, and runs it once if it loaded.
\<close>

theorem bridge_definition_unchecked:
  assumes "exe_path_ok e" and "newstate_ok e"
  shows "(bridge_def_error e \<noteq> None \<longrightarrow>
            fst (luaL_dostring e L) \<noteq> 0
          \<and> globals (before_call e argv) ''setPaths'' = LNil
          \<and> fst (lua_pcall3 e (before_call e argv)) \<noteq> 0
          \<and> snd (main_ondisk e argv) =
              [NewState,
               Fprintf (appName @ '': Error setting paths: attempt to call a nil value''
                 @ [newline]),
               LoadPayload (scriptPath e)]
              @ (case payload_load_error e (scriptPath e) of
                   Some m \<Rightarrow> [Fprintf (appName @ '': Error: '' @ m @ [newline]), Close]
                 | None \<Rightarrow>
                     RunPayload (scriptPath e)
                     # (case payload_run_error e (scriptPath e) of
                          Some m \<Rightarrow> [Fprintf (appName @ '': Error: '' @ m @ [newline]), Close]
                        | None \<Rightarrow> [Close]))
          \<and> snd (main_embedded e argv bytes n) =
              [NewState,
               Fprintf (appName @ '': Error setting paths: attempt to call a nil value''
                 @ [newline]),
               LoadPayload (take (unat n) bytes)]
              @ (case payload_load_error e (take (unat n) bytes) of
                   Some m \<Rightarrow>
                     [Fprintf (appName @ '': Syntax error in embedded code: '' @ m @ [newline]),
                      Close]
                 | None \<Rightarrow>
                     RunPayload (take (unat n) bytes)
                     # (case payload_run_error e (take (unat n) bytes) of
                          Some m \<Rightarrow>
                            [Fprintf (appName @ '': Runtime error: '' @ m @ [newline]), Close]
                        | None \<Rightarrow> [Close])))
       \<and> count_list (snd (main_ondisk e argv)) (LoadPayload (scriptPath e)) = 1
       \<and> (payload_load_error e (scriptPath e) = None \<longrightarrow>
            count_list (snd (main_ondisk e argv)) (RunPayload (scriptPath e)) = 1)
       \<and> count_list (snd (main_embedded e argv bytes n)) (LoadPayload (take (unat n) bytes)) = 1
       \<and> (payload_load_error e (take (unat n) bytes) = None \<longrightarrow>
            count_list (snd (main_embedded e argv bytes n)) (RunPayload (take (unat n) bytes)) = 1)"
proof -
  have out: "count_list (snd (startup e argv)) (LoadPayload x) = 0"
    "count_list (snd (startup e argv)) (RunPayload x) = 0" for x
    using startup_out_cases [of e argv] by auto
  have "bridge_def_error e \<noteq> None \<longrightarrow> fst (luaL_dostring e L) \<noteq> 0"
    by (auto simp: luaL_dostring_def)
  moreover have "bridge_def_error e \<noteq> None \<longrightarrow> globals (before_call e argv) ''setPaths'' = LNil"
    by (auto simp: before_call_eq)
  moreover have "bridge_def_error e \<noteq> None \<longrightarrow> fst (lua_pcall3 e (before_call e argv)) \<noteq> 0"
    by (auto simp: pcall3_before_call)
  moreover have "bridge_def_error e \<noteq> None \<longrightarrow>
      snd (startup e argv) =
        [Fprintf (appName @ '': Error setting paths: attempt to call a nil value'' @ [newline])]"
    by (auto simp: startup_eq)
  ultimately show ?thesis
    using out
    by (simp add: main_ondisk_created [OF assms] main_embedded_created [OF assms]
        split: option.splits)
qed

theorem bridge_definition_unchecked_witness:
  "bridge_def_error (env_ok\<lparr>bridge_def_error := Some ''not enough memory''\<rparr>) \<noteq> None
   \<and> snd (main_ondisk (env_ok\<lparr>bridge_def_error := Some ''not enough memory''\<rparr>) [''ldoc.exe'']) =
       [NewState,
        Fprintf (''ldoc.exe: Error setting paths: attempt to call a nil value'' @ [newline]),
        LoadPayload (''C:'' @ [bslash] @ ''OneLuaPro'' @ [bslash] @ ''bin'' @ [bslash] @ ''ldoc.lua''),
        RunPayload (''C:'' @ [bslash] @ ''OneLuaPro'' @ [bslash] @ ''bin'' @ [bslash] @ ''ldoc.lua''),
        Close]
   \<and> snd (main_embedded (env_ok\<lparr>bridge_def_error := Some ''not enough memory''\<rparr>) [''ldoc.exe'']
         (''x=1'' @ [CHR 0x00]) 3) =
       [NewState,
        Fprintf (''ldoc.exe: Error setting paths: attempt to call a nil value'' @ [newline]),
        LoadPayload ''x=1'', RunPayload ''x=1'', Close]"
proof -
  let ?e = "env_ok\<lparr>bridge_def_error := Some ''not enough memory''\<rparr>"
  have a: "exe_path_ok ?e" and b: "newstate_ok ?e" by (simp_all add: env_ok_def)
  have c: "bridge_def_error ?e \<noteq> None" by simp
  note t = bridge_definition_unchecked [OF a b, of _ "[''ldoc.exe'']" "''x=1'' @ [CHR 0x00]" 3]
  show ?thesis using t c by (simp add: env_ok_def scriptPath_def appName_def)
qed

subsection \<open>Exit status and diagnostics\<close>

lemma main_ondisk_status:
  assumes "exe_path_ok e" and "newstate_ok e"
  shows "fst (main_ondisk e argv) =
     (if payload_load_error e (scriptPath e) = None \<and> payload_run_error e (scriptPath e) = None
      then 0 else 1)"
  by (simp add: main_ondisk_created [OF assms] split: option.splits)

lemma main_embedded_status:
  assumes "exe_path_ok e" and "newstate_ok e"
  shows "fst (main_embedded e argv bytes n) = 0"
  by (simp add: main_embedded_created [OF assms] split: option.splits)

lemma main_not_created:
  "\<not> (exe_path_ok e \<and> newstate_ok e) \<Longrightarrow>
     fst (main_ondisk e argv) = 1 \<and> fst (main_embedded e argv bytes n) = 1"
  by (auto simp: main_ondisk_def main_embedded_def)

text \<open>
  C1. The on-disk launcher returns 1 when the payload does not load or raises an error.
  The embedded launcher prints the diagnostic of a payload that does not compile, or
  that raises an error, and then returns 0, the status of a payload that ran.
\<close>

theorem embedded_failure_exits_zero:
  "main_embedded (env_ok\<lparr>payload_load_error := (\<lambda>_. Some ''unexpected symbol'')\<rparr>) [''ldoc.exe'']
       (''('' @ [CHR 0x00]) 1 =
     (0, [NewState, LoadPayload ''('',
          Fprintf (''ldoc.exe: Syntax error in embedded code: unexpected symbol'' @ [newline]),
          Close])
   \<and> main_embedded (env_ok\<lparr>payload_run_error := (\<lambda>_. Some ''boom'')\<rparr>) [''ldoc.exe'']
       (''('' @ [CHR 0x00]) 1 =
     (0, [NewState, LoadPayload ''('', RunPayload ''('',
          Fprintf (''ldoc.exe: Runtime error: boom'' @ [newline]), Close])
   \<and> fst (main_ondisk (env_ok\<lparr>payload_load_error := (\<lambda>_. Some ''unexpected symbol'')\<rparr>)
       [''ldoc.exe'']) = 1
   \<and> fst (main_ondisk (env_ok\<lparr>payload_run_error := (\<lambda>_. Some ''boom'')\<rparr>) [''ldoc.exe'']) = 1"
proof -
  let ?e1 = "env_ok\<lparr>payload_load_error := (\<lambda>_. Some ''unexpected symbol'')\<rparr>"
  let ?e2 = "env_ok\<lparr>payload_run_error := (\<lambda>_. Some ''boom'')\<rparr>"
  have ok: "exe_path_ok ?e1" "newstate_ok ?e1" "exe_path_ok ?e2" "newstate_ok ?e2"
    by (simp_all add: env_ok_def)
  have a: "main_embedded ?e1 [''ldoc.exe''] (''('' @ [CHR 0x00]) 1 =
     (0, [NewState, LoadPayload ''('',
          Fprintf (''ldoc.exe: Syntax error in embedded code: unexpected symbol'' @ [newline]),
          Close])"
    by (subst main_embedded_created [OF ok(1,2)]) (simp add: startup_eq env_ok_def appName_def)
  have b: "main_embedded ?e2 [''ldoc.exe''] (''('' @ [CHR 0x00]) 1 =
     (0, [NewState, LoadPayload ''('', RunPayload ''('',
          Fprintf (''ldoc.exe: Runtime error: boom'' @ [newline]), Close])"
    by (subst main_embedded_created [OF ok(3,4)]) (simp add: startup_eq env_ok_def appName_def)
  have c: "fst (main_ondisk ?e1 [''ldoc.exe'']) = 1"
    by (subst main_ondisk_status [OF ok(1,2)]) (simp add: env_ok_def)
  have d: "fst (main_ondisk ?e2 [''ldoc.exe'']) = 1"
    by (subst main_ondisk_status [OF ok(3,4)]) (simp add: env_ok_def)
  show ?thesis using a b c d by simp
qed

text \<open>
  C2, as the claim states it, fails in the on-disk variant: a script that does not
  compile and a script that raises an error, with the same message from the runtime, give
  the same line, with the one prefix \<^verbatim>\<open>Error\<close>.
\<close>

theorem ondisk_one_prefix_counterexample:
  "stderr_of (snd (main_ondisk (env_ok\<lparr>payload_load_error := (\<lambda>_. Some ''boom'')\<rparr>)
      [''ldoc.exe''])) = [''ldoc.exe: Error: boom'' @ [newline]]
   \<and> stderr_of (snd (main_ondisk (env_ok\<lparr>payload_run_error := (\<lambda>_. Some ''boom'')\<rparr>)
      [''ldoc.exe''])) = [''ldoc.exe: Error: boom'' @ [newline]]"
proof -
  let ?e1 = "env_ok\<lparr>payload_load_error := (\<lambda>_. Some ''boom'')\<rparr>"
  let ?e2 = "env_ok\<lparr>payload_run_error := (\<lambda>_. Some ''boom'')\<rparr>"
  have ok: "exe_path_ok ?e1" "newstate_ok ?e1" "exe_path_ok ?e2" "newstate_ok ?e2"
    by (simp_all add: env_ok_def)
  have a: "stderr_of (snd (main_ondisk ?e1 [''ldoc.exe''])) = [''ldoc.exe: Error: boom'' @ [newline]]"
    by (subst main_ondisk_created [OF ok(1,2)]) (simp add: startup_eq env_ok_def appName_def)
  have b: "stderr_of (snd (main_ondisk ?e2 [''ldoc.exe''])) = [''ldoc.exe: Error: boom'' @ [newline]]"
    by (subst main_ondisk_created [OF ok(3,4)]) (simp add: startup_eq env_ok_def appName_def)
  show ?thesis using a b by simp
qed

text \<open>
  C2, amended. In the embedded variant the last line of a run whose payload does not
  compile is the name, \<^verbatim>\<open>Syntax error in embedded code\<close> and the message, and the last line
  of a run whose payload raises an error is the name, \<^verbatim>\<open>Runtime error\<close> and the message;
  the two lines differ whatever the messages are. In the on-disk variant the last line
  is the name, \<^verbatim>\<open>Error\<close> and the message in both cases.
\<close>

theorem payload_failure_prefixes:
  assumes "exe_path_ok e" and "newstate_ok e"
  shows "(payload_load_error e (take (unat n) bytes) = Some m \<longrightarrow>
            last (stderr_of (snd (main_embedded e argv bytes n))) =
              appName @ '': Syntax error in embedded code: '' @ m @ [newline])
       \<and> (payload_load_error e (take (unat n) bytes) = None
            \<and> payload_run_error e (take (unat n) bytes) = Some m \<longrightarrow>
            last (stderr_of (snd (main_embedded e argv bytes n))) =
              appName @ '': Runtime error: '' @ m @ [newline])
       \<and> appName @ '': Syntax error in embedded code: '' @ m1 @ [newline]
            \<noteq> appName @ '': Runtime error: '' @ m2 @ [newline]
       \<and> (payload_load_error e (scriptPath e) = Some m \<longrightarrow>
            last (stderr_of (snd (main_ondisk e argv))) =
              appName @ '': Error: '' @ m @ [newline])
       \<and> (payload_load_error e (scriptPath e) = None
            \<and> payload_run_error e (scriptPath e) = Some m \<longrightarrow>
            last (stderr_of (snd (main_ondisk e argv))) =
              appName @ '': Error: '' @ m @ [newline])"
  by (simp add: main_ondisk_created [OF assms] main_embedded_created [OF assms] stderr_of_append)

theorem payload_failure_prefixes_witness:
  "last (stderr_of (snd (main_embedded
       (env_ok\<lparr>payload_load_error := (\<lambda>_. Some ''unexpected symbol'')\<rparr>) [''ldoc.exe'']
       (''('' @ [CHR 0x00]) 1))) =
     ''ldoc.exe: Syntax error in embedded code: unexpected symbol'' @ [newline]
   \<and> last (stderr_of (snd (main_ondisk
       (env_ok\<lparr>payload_load_error := (\<lambda>_. Some ''unexpected symbol'')\<rparr>) [''ldoc.exe'']))) =
     ''ldoc.exe: Error: unexpected symbol'' @ [newline]"
proof -
  let ?e1 = "env_ok\<lparr>payload_load_error := (\<lambda>_. Some ''unexpected symbol'')\<rparr>"
  have ok: "exe_path_ok ?e1" "newstate_ok ?e1" by (simp_all add: env_ok_def)
  have l: "payload_load_error ?e1 x = Some ''unexpected symbol''" for x by simp
  show ?thesis
    using payload_failure_prefixes [OF ok, of 1 "''('' @ [CHR 0x00]" "''unexpected symbol''"
        "[''ldoc.exe'']"] l
    by (simp add: appName_def)
qed

subsection \<open>The form of the diagnostics\<close>

lemma has_colon_space_iff: "has_colon_space s \<longleftrightarrow> (\<exists>a b. s = a @ '': '' @ b)"
proof (induction s rule: has_colon_space.induct)
  case (1 a b rest)
  show ?case
  proof
    assume "has_colon_space (a # b # rest)"
    then consider "a = CHR '':''" "b = CHR '' ''" | "has_colon_space (b # rest)" by auto
    then show "\<exists>x y. a # b # rest = x @ '': '' @ y"
    proof cases
      case 1
      then have "a # b # rest = [] @ '': '' @ rest" by simp
      then show ?thesis by blast
    next
      case 2
      with "1.IH" obtain x y where "b # rest = x @ '': '' @ y" by auto
      then have "a # b # rest = (a # x) @ '': '' @ y" by simp
      then show ?thesis by blast
    qed
  next
    assume "\<exists>x y. a # b # rest = x @ '': '' @ y"
    then obtain x y where xy: "a # b # rest = x @ '': '' @ y" by auto
    show "has_colon_space (a # b # rest)"
    proof (cases x)
      case Nil
      with xy show ?thesis by simp
    next
      case (Cons c x')
      with xy have "b # rest = x' @ '': '' @ y" by simp
      then have "has_colon_space (b # rest)" using "1.IH" by blast
      then show ?thesis by simp
    qed
  qed
next
  case (2 a)
  show ?case by (auto simp: Cons_eq_append_conv)
next
  case 3
  show ?case by simp
qed

lemma has_format_iff:
  "has_format line \<longleftrightarrow> (\<exists>cat details. line = appName @ '': '' @ cat @ '': '' @ details)"
proof
  assume h: "has_format line"
  then obtain a b where ab: "drop (length appName + 2) line = a @ '': '' @ b"
    by (auto simp: has_format_def has_colon_space_iff)
  have "line = take (length appName + 2) line @ drop (length appName + 2) line" by simp
  also have "\<dots> = (appName @ '': '') @ a @ '': '' @ b"
    using h ab by (simp add: has_format_def)
  finally show "\<exists>cat details. line = appName @ '': '' @ cat @ '': '' @ details" by auto
next
  assume "\<exists>cat details. line = appName @ '': '' @ cat @ '': '' @ details"
  then obtain cat details where l: "line = (appName @ '': '') @ cat @ '': '' @ details" by auto
  have "has_colon_space (cat @ '': '' @ details)" unfolding has_colon_space_iff by blast
  then show "has_format line" unfolding has_format_def l by simp
qed

lemma with_category_line: "with_category (appName @ '': '' @ cat @ '': '' @ m @ [newline]) cat"
proof -
  define P where "P = appName @ '': '' @ cat @ '': ''"
  have l: "appName @ '': '' @ cat @ '': '' @ m @ [newline] = P @ m @ [newline]"
    by (simp add: P_def)
  have "take (length P) (P @ m @ [newline]) = P \<and> last (P @ m @ [newline]) = newline"
    by simp
  then show ?thesis unfolding with_category_def l P_def [symmetric] .
qed

lemma with_category_has_format: "with_category line cat \<Longrightarrow> has_format line"
proof -
  assume w: "with_category line cat"
  let ?p = "appName @ '': '' @ cat @ '': ''"
  have "line = take (length ?p) line @ drop (length ?p) line" by simp
  also have "\<dots> = appName @ '': '' @ cat @ '': '' @ drop (length ?p) line"
    using w by (simp add: with_category_def)
  finally show ?thesis unfolding has_format_iff by blast
qed

lemma diag_form_lines:
  "diag_form (appName @ '': Error setting paths: '' @ m @ [newline])"
  "diag_form (appName @ '': Error: '' @ m @ [newline])"
  "diag_form (appName @ '': Runtime error: '' @ m @ [newline])"
  "diag_form (appName @ '': Syntax error in embedded code: '' @ m @ [newline])"
  "diag_form (appName @ '': Could not find executable path.'' @ [newline])"
  "diag_form (appName @ '': Failed to create Lua state.'' @ [newline])"
  using with_category_line [of "''Error setting paths''" m] with_category_line [of "''Error''" m]
    with_category_line [of "''Runtime error''" m]
    with_category_line [of "''Syntax error in embedded code''" m]
  by (simp_all add: diag_form_def categories_def fixed_messages_def)

text \<open>
  C8, as the claim states it, fails on the first fatal path: when the executable's path
  cannot be found, the line is the name and a message, with no second colon and space,
  so it has no category and details.
\<close>

theorem fatal_line_has_no_category_counterexample:
  "stderr_of (snd (main_ondisk (env_ok\<lparr>exe_path_ok := False\<rparr>) [''ldoc.exe''])) =
     [''ldoc.exe: Could not find executable path.'' @ [newline]]
   \<and> \<not> has_format (''ldoc.exe: Could not find executable path.'' @ [newline])"
  by (simp add: main_ondisk_def env_ok_def appName_def has_format_def)

text \<open>
  C8, amended. Every line either launcher writes to standard error is of one of two
  forms: the name, one of the categories \<^verbatim>\<open>Error setting paths\<close>, \<^verbatim>\<open>Error\<close>,
  \<^verbatim>\<open>Runtime error\<close>, \<^verbatim>\<open>Syntax error in embedded code\<close> and the runtime's message, each
  followed by a colon and a space, and a line feed; or the name, a colon and a space, one
  of the messages \<^verbatim>\<open>Could not find executable path.\<close>, \<^verbatim>\<open>Failed to create Lua state.\<close> and a
  line feed. A line of the first form is of the form name, category, details; the two
  lines of the second form are not.
\<close>

theorem diagnostics_have_form:
  "list_all diag_form (stderr_of (snd (main_ondisk e argv)))
   \<and> list_all diag_form (stderr_of (snd (main_embedded e argv bytes n)))
   \<and> (list_ex (with_category line) categories \<longrightarrow> has_format line)
   \<and> \<not> has_format (appName @ '': Could not find executable path.'' @ [newline])
   \<and> \<not> has_format (appName @ '': Failed to create Lua state.'' @ [newline])"
proof -
  have out: "list_all diag_form (stderr_of (snd (startup e argv)))"
  proof -
    from startup_out_cases [of e argv] show ?thesis
    proof (elim disjE)
      assume "snd (startup e argv) = []"
      then show ?thesis by simp
    next
      assume a: "snd (startup e argv) =
        [Fprintf (appName @ '': Error setting paths: ''
           @ lua_tostring (snd (lua_pcall3 e (before_call e argv))) (- 1) @ [newline])]"
      show ?thesis unfolding a
        by (simp add: diag_form_lines [simplified])
    qed
  qed
  have a: "list_all diag_form (stderr_of (snd (main_ondisk e argv)))"
  proof (cases "exe_path_ok e \<and> newstate_ok e")
    case True
    then have ok: "exe_path_ok e" "newstate_ok e" by simp_all
    show ?thesis
      using out
      by (simp add: main_ondisk_created [OF ok] stderr_of_append diag_form_lines [simplified]
          split: option.splits)
  next
    case False
    then show ?thesis by (auto simp: main_ondisk_def diag_form_lines [simplified])
  qed
  have b: "list_all diag_form (stderr_of (snd (main_embedded e argv bytes n)))"
  proof (cases "exe_path_ok e \<and> newstate_ok e")
    case True
    then have ok: "exe_path_ok e" "newstate_ok e" by simp_all
    show ?thesis
      using out
      by (simp add: main_embedded_created [OF ok] stderr_of_append diag_form_lines [simplified]
          split: option.splits)
  next
    case False
    then show ?thesis by (auto simp: main_embedded_def diag_form_lines [simplified])
  qed
  have c: "list_ex (with_category line) categories \<longrightarrow> has_format line"
    by (auto simp: list_ex_iff with_category_has_format)
  have d: "\<not> has_format (appName @ '': Could not find executable path.'' @ [newline])"
    "\<not> has_format (appName @ '': Failed to create Lua state.'' @ [newline])"
    by (simp_all add: has_format_def appName_def)
  show ?thesis using a b c d by simp
qed

theorem diagnostics_have_form_witness:
  "stderr_of (snd (main_ondisk
      (env_ok\<lparr>bridge_run_error := Some ''not enough memory'',
              payload_run_error := (\<lambda>_. Some ''boom'')\<rparr>) [''ldoc.exe''])) =
     [''ldoc.exe: Error setting paths: not enough memory'' @ [newline],
      ''ldoc.exe: Error: boom'' @ [newline]]
   \<and> list_all diag_form
     [''ldoc.exe: Error setting paths: not enough memory'' @ [newline],
      ''ldoc.exe: Error: boom'' @ [newline]]"
proof -
  let ?e = "env_ok\<lparr>bridge_run_error := Some ''not enough memory'',
              payload_run_error := (\<lambda>_. Some ''boom'')\<rparr>"
  have ok: "exe_path_ok ?e" "newstate_ok ?e" by (simp_all add: env_ok_def)
  have a: "stderr_of (snd (main_ondisk ?e [''ldoc.exe''])) =
     [''ldoc.exe: Error setting paths: not enough memory'' @ [newline],
      ''ldoc.exe: Error: boom'' @ [newline]]"
    by (subst main_ondisk_created [OF ok]) (simp add: startup_eq env_ok_def appName_def)
  show ?thesis
    using diagnostics_have_form [of ?e "[''ldoc.exe'']" "[]" 0 "[]"] unfolding a by simp
qed

subsection \<open>The generated array\<close>

lemma of_char_less_256: "(of_char c :: nat) < 256"
proof -
  have "(of_char c :: nat) mod 256 = of_char c" by simp
  then show ?thesis by (metis mod_less_divisor zero_less_numeral)
qed

lemma hexdigit_table:
  "list_all (\<lambda>n. is_hex (hexdigit n) \<and> unhex (hexdigit n) = n) [0..<16]"
  by code_simp

lemma hexdigit_ok: "n < 16 \<Longrightarrow> is_hex (hexdigit n) \<and> unhex (hexdigit n) = n"
  using hexdigit_table by (simp add: list_all_iff)

lemma hex_byte_digits:
  "hex_byte c = [hexdigit (of_char c div 16), hexdigit (of_char c mod 16)]
   \<and> (of_char c :: nat) div 16 < 16 \<and> (of_char c :: nat) mod 16 < 16"
  using of_char_less_256 [of c] by (simp add: hex_byte_def less_mult_imp_div_less)

lemma format_hex_byte:
  "format_hex (hex_byte c @ rest) = ''0x'' @ hex_byte c @ '','' @ format_hex rest"
  using hex_byte_digits [of c] hexdigit_ok by (simp add: hex_byte_def)

lemma format_hex_read_hex:
  "format_hex (read_hex s) = concat (map (\<lambda>c. ''0x'' @ hex_byte c @ '','') s)"
  by (induction s) (simp_all add: read_hex_def format_hex_byte)

lemma c_array_skip: "z \<noteq> CHR ''0'' \<Longrightarrow> c_array (z # rest) = c_array rest"
proof (cases rest)
  case Nil
  then show ?thesis by simp
next
  case (Cons x r1)
  note c1 = this
  assume z: "z \<noteq> CHR ''0''"
  show ?thesis
  proof (cases r1)
    case Nil
    then show ?thesis using c1 by simp
  next
    case (Cons a r2)
    note c2 = this
    show ?thesis
    proof (cases r2)
      case Nil
      then show ?thesis using c1 c2 by simp
    next
      case (Cons b r3)
      then show ?thesis using c1 c2 z by simp
    qed
  qed
qed

lemma c_array_byte: "c_array (''0x'' @ hex_byte c @ '','' @ rest) = c # c_array rest"
proof -
  have "(16 * (of_char c div 16) + of_char c mod 16 :: nat) = of_char c" by simp
  then have "char_of (16 * unhex (hexdigit (of_char c div 16))
      + unhex (hexdigit (of_char c mod 16))) = c"
    using hex_byte_digits [of c] hexdigit_ok by simp
  then show ?thesis by (simp add: hex_byte_def c_array_skip)
qed

lemma c_array_bytes:
  "c_array (concat (map (\<lambda>c. ''0x'' @ hex_byte c @ '','') s) @ rest) = s @ c_array rest"
proof (induction s)
  case Nil
  show ?case by simp
next
  case (Cons c s)
  have "c_array (concat (map (\<lambda>c. ''0x'' @ hex_byte c @ '','') (c # s)) @ rest) =
      c_array (''0x'' @ hex_byte c @ '','' @ (concat (map (\<lambda>c. ''0x'' @ hex_byte c @ '','') s) @ rest))"
    by simp
  also have "\<dots> = c # c_array (concat (map (\<lambda>c. ''0x'' @ hex_byte c @ '','') s) @ rest)"
    by (rule c_array_byte)
  finally show ?case using Cons.IH by simp
qed

lemma c_array_terminator: "c_array ([newline] @ ''0x00'' @ [newline]) = [CHR 0x00]"
  by code_simp

text \<open>
  The array is the temporary file's bytes and a zero byte; the size is their number.
\<close>

lemma ldoc_source_bytes_eq: "ldoc_source_bytes s = clean_file s @ [CHR 0x00]"
  using c_array_bytes [of "clean_file s" "[newline] @ ''0x00'' @ [newline]"]
  unfolding ldoc_source_bytes_def initializer_def format_hex_read_hex c_array_terminator
  by simp

lemma ldoc_source_size_eq:
  "length (clean_file s) < 2 ^ 32 \<Longrightarrow> unat (ldoc_source_size s) = length (clean_file s)"
  by (simp add: ldoc_source_size_def ldoc_source_bytes_eq unat_of_nat)

lemma embedded_chunk_eq:
  "length (clean_file s) < 2 ^ 32 \<Longrightarrow> embedded_chunk s = clean_file s"
  by (simp add: embedded_chunk_def ldoc_source_size_eq) (simp add: ldoc_source_bytes_eq)

text \<open>What text mode changes.\<close>

lemma read_text_plain: "creturn \<notin> set s \<Longrightarrow> read_text s = s"
  by (induction s rule: read_text.induct) auto

lemma write_text_plain: "newline \<notin> set s \<Longrightarrow> write_text s = s"
  by (induction s) auto

lemma clean_file_line_ends:
  "clean_file (''a'' @ [newline] @ ''b'') = ''a'' @ [creturn, newline] @ ''b''
   \<and> clean_file (''a'' @ [creturn, newline] @ ''b'') = ''a'' @ [creturn, newline] @ ''b''"
  by (simp add: clean_file_def strip_shebang.simps match_directive_def)

text \<open>What the regular expression removes.\<close>

lemma match_directive_line:
  assumes "newline \<notin> set l"
  shows "match_directive (''#!'' @ l @ [newline] @ rest) = Some rest"
proof -
  have "\<forall>x \<in> set l. x \<noteq> newline" using assms by auto
  then have "dropWhile (\<lambda>c. c \<noteq> newline) (l @ newline # rest) = newline # rest"
    by (simp add: dropWhile_append)
  then show ?thesis by (simp add: match_directive_def)
qed

lemma match_directive_other: "take 2 s \<noteq> ''#!'' \<Longrightarrow> match_directive s = None"
  by (auto simp: match_directive_def split: list.splits)

lemma match_directive_unterminated:
  assumes "newline \<notin> set s"
  shows "match_directive s = None"
proof (cases s)
  case Nil
  then show ?thesis by (simp add: match_directive_def)
next
  case (Cons c1 r1)
  note s1 = this
  show ?thesis
  proof (cases r1)
    case Nil
    then show ?thesis using s1 by (simp add: match_directive_def)
  next
    case (Cons c2 rest)
    have "\<forall>x \<in> set rest. x \<noteq> newline" using assms s1 Cons by auto
    then have d: "dropWhile (\<lambda>c. c \<noteq> newline) rest = []" by simp
    show ?thesis by (simp add: match_directive_def s1 Cons d)
  qed
qed

lemma strip_shebang_line:
  assumes "newline \<notin> set l"
  shows "strip_shebang (''#!'' @ l @ [newline] @ rest) = strip_shebang rest"
  by (subst strip_shebang.simps, subst match_directive_line [OF assms]) simp

lemma strip_shebang_other: "take 2 s \<noteq> ''#!'' \<Longrightarrow> strip_shebang s = s"
  by (subst strip_shebang.simps) (simp add: match_directive_other)

lemma strip_shebang_unterminated: "newline \<notin> set s \<Longrightarrow> strip_shebang s = s"
  by (subst strip_shebang.simps) (simp add: match_directive_unterminated)

lemma strip_shebang_one_line:
  assumes "newline \<notin> set l" and "take 2 rest \<noteq> ''#!''"
  shows "strip_shebang (''#!'' @ l @ [newline] @ rest) = rest"
proof -
  have "strip_shebang (''#!'' @ l @ [newline] @ rest) = strip_shebang rest"
    by (rule strip_shebang_line [OF assms(1)])
  also have "\<dots> = rest" by (rule strip_shebang_other [OF assms(2)])
  finally show ?thesis .
qed

lemma strip_shebang_two_lines:
  "strip_shebang (''#!a'' @ [newline] @ ''#!b'' @ [newline] @ ''print(1)'' @ [newline]) =
     ''print(1)'' @ [newline]"
  using strip_shebang_line [of "''a''" "''#!b'' @ [newline] @ ''print(1)'' @ [newline]"]
    strip_shebang_line [of "''b''" "''print(1)'' @ [newline]"]
    strip_shebang_other [of "''print(1)'' @ [newline]"]
  by simp

text \<open>
  C9. The script \<^verbatim>\<open>#!abc\<close>, one directive line without a line feed, starts with the
  directive, and the conversion leaves it in place: the array is the five bytes and a
  zero byte, the size is 5, and the embedded launcher hands \<^verbatim>\<open>#!abc\<close> to the runtime,
  where removing the directive line leaves the empty script.
\<close>

theorem unterminated_directive_kept:
  "ldoc_source_bytes ''#!abc'' = ''#!abc'' @ [CHR 0x00]
   \<and> unat (ldoc_source_size ''#!abc'') = 5
   \<and> embedded_chunk ''#!abc'' = ''#!abc''
   \<and> without_directive ''#!abc'' = []"
proof -
  have "strip_shebang ''#!abc'' = ''#!abc''" by (simp add: strip_shebang_unterminated)
  then have a: "clean_file ''#!abc'' = ''#!abc''" by (simp add: clean_file_def)
  have b: "ldoc_source_bytes ''#!abc'' = ''#!abc'' @ [CHR 0x00]"
    by (simp add: ldoc_source_bytes_eq a)
  have c: "unat (ldoc_source_size ''#!abc'') = 5"
    using ldoc_source_size_eq [of "''#!abc''"] by (simp add: a)
  have d: "embedded_chunk ''#!abc'' = ''#!abc''"
    using embedded_chunk_eq [of "''#!abc''"] by (simp add: a)
  have e: "without_directive ''#!abc'' = []" by (simp add: without_directive_def)
  show ?thesis using b c d e by simp
qed

end
